theory Spec2Isabelle
  imports Main
begin

section \<open>The page, the browser tables and the script's variables\<close>

text \<open>
  The script of \<^verbatim>\<open>src/script.js\<close> (its last version, the one with the carousel) works on
  a static document: it never creates or removes an element. The model therefore keeps
  one value per element the script queries, \<open>None\<close> where the element is missing, and the
  attributes and classes the script reads or writes as fields of that value.

  A selectable entry (\<^verbatim>\<open>.entry.selectable\<close>) carries its \<^verbatim>\<open>data-image\<close> attribute
  (\<open>None\<close>: no attribute, what \<^verbatim>\<open>getAttribute\<close> returns as \<^verbatim>\<open>null\<close>) and whether its
  class list holds \<^verbatim>\<open>selected\<close>.
\<close>

record entry =
  data_image :: "string option"
  selected :: bool

text \<open>
  The desktop showcase (\<^verbatim>\<open>.showcase\<close>): its \<^verbatim>\<open>data-selected\<close> attribute and its
  \<^verbatim>\<open>.showcase-image-wrapper\<close> child (\<open>None\<close>: no such child; \<open>Some f\<close>: the child, with
  \<open>f\<close> telling whether its class list holds \<^verbatim>\<open>fading\<close>).
\<close>

record showcase_el =
  sc_data_selected :: "string option"
  sc_wrapper :: "bool option"

record mobile_showcase_el =
  ms_data_selected :: "string option"

text \<open>
  The progress indicator (\<^verbatim>\<open>#carouselProgress\<close>): the classes \<^verbatim>\<open>running\<close> and
  \<^verbatim>\<open>paused\<close>, and the inline style (\<^verbatim>\<open>transition\<close>, \<^verbatim>\<open>width\<close>) of its
  \<^verbatim>\<open>.carousel-progress-bar\<close> child when there is one.
\<close>

record progress_el =
  pb_running :: bool
  pb_paused :: bool
  pb_bar :: "(string \<times> string) option"

text \<open>
  \<^verbatim>\<open>localStorage\<close> either throws on every access (\<open>Unavailable\<close>) or holds the value of
  the key \<^verbatim>\<open>theme-preference\<close> (\<open>None\<close>: the key is not set).
\<close>

datatype storage = Unavailable | Stored "string option"

datatype js_error = SecurityError | TypeError | SyntaxError

text \<open>
  A callback either returns or throws; the state it leaves behind is kept in both cases,
  since what it wrote before throwing stays written.
\<close>

datatype 'a outcome = Returned 'a | Threw js_error 'a

text \<open>The two callbacks the script hands to \<^verbatim>\<open>setTimeout\<close>.\<close>

datatype action = SwapImage string | ClearTransitioning

record state =
  innerWidth :: nat
  localStorage :: storage
  matchMedia :: "bool option"
  engineAnswer :: "js_error + nat option"
  clock :: nat
  data_theme :: "string option"
  data_theme_transitioning :: bool
  entries :: "entry list"
  showcase :: "showcase_el option"
  mobileShowcase :: "mobile_showcase_el option"
  mobileModal :: "bool option"
  body_overflow :: string
  carouselProgress :: "progress_el option"
  wasMobile :: bool
  carouselIntervalId :: "nat option"
  carouselPaused :: bool
  progressBar :: bool
  intervals :: "nat list"
  nextTimerId :: nat
  timeouts :: "(nat \<times> action) list"
  frames :: nat

text \<open>
  \<^item> \<open>innerWidth\<close>, \<open>localStorage\<close>, \<open>matchMedia\<close> (\<open>None\<close>: \<^verbatim>\<open>window.matchMedia\<close> is
    undefined; \<open>Some b\<close>: the query \<^verbatim>\<open>(prefers-color-scheme: dark)\<close> matches iff \<open>b\<close>) and
    \<open>clock\<close> (milliseconds) are the browser's.
  \<^item> \<open>engineAnswer\<close> is what the browser's selector engine answers, at this moment, to a
    selector text that the model does not interpret (see \<open>querySelector\<close> below): an
    exception, no element, or an element, given as an index into \<open>entries\<close> or, for an
    element that is not a selectable entry, as a number beyond them.
  \<^item> \<open>data_theme\<close> and \<open>data_theme_transitioning\<close> are the attributes of the document
    element; \<open>mobileModal\<close> is \<^verbatim>\<open>#mobileModal\<close> (\<open>Some a\<close>: present, class \<^verbatim>\<open>active\<close>
    iff \<open>a\<close>); \<open>body_overflow\<close> is \<^verbatim>\<open>document.body.style.overflow\<close>.
  \<^item> \<open>wasMobile\<close>, \<open>carouselIntervalId\<close>, \<open>carouselPaused\<close> and \<open>progressBar\<close> (whether
    the variable holds the element rather than \<^verbatim>\<open>null\<close>) are the script's variables.
  \<^item> \<open>intervals\<close> lists the handles of the interval timers that are alive, \<open>nextTimerId\<close>
    is the next handle \<^verbatim>\<open>setInterval\<close> gives out, \<open>timeouts\<close> lists the pending
    \<^verbatim>\<open>setTimeout\<close> callbacks with the time at which each is due, in the order of their
    registration, and \<open>frames\<close> counts the pending \<^verbatim>\<open>requestAnimationFrame\<close> callbacks.
  The label of the theme button is not modelled.
\<close>

section \<open>Theme\<close>

definition THEME_DARK :: string where
  "THEME_DARK = ''dark''"

definition THEME_LIGHT :: string where
  "THEME_LIGHT = ''light''"

text \<open>JavaScript's truthiness of a string-or-null value: \<^verbatim>\<open>null\<close> and \<^verbatim>\<open>""\<close> are falsy.\<close>

fun truthy :: "string option \<Rightarrow> bool" where
  "truthy None = False"
| "truthy (Some v) = (v \<noteq> [])"

definition getSystemThemePreference :: "state \<Rightarrow> string" where
  "getSystemThemePreference s =
     (if matchMedia s = Some True then THEME_DARK else THEME_LIGHT)"

definition getItem :: "storage \<Rightarrow> js_error + string option" where
  "getItem st = (case st of Unavailable \<Rightarrow> Inl SecurityError | Stored v \<Rightarrow> Inr v)"

definition setItem :: "string \<Rightarrow> storage \<Rightarrow> js_error + storage" where
  "setItem v st = (case st of Unavailable \<Rightarrow> Inl SecurityError | Stored _ \<Rightarrow> Inr (Stored (Some v)))"

text \<open>The \<^verbatim>\<open>try\<close>/\<^verbatim>\<open>catch\<close> of the source: a throwing read gives \<^verbatim>\<open>null\<close>.\<close>

definition getStoredThemePreference :: "state \<Rightarrow> string option" where
  "getStoredThemePreference s =
     (case getItem (localStorage s) of Inl e \<Rightarrow> None | Inr v \<Rightarrow> v)"

definition setStoredThemePreference :: "string \<Rightarrow> state \<Rightarrow> state" where
  "setStoredThemePreference theme s =
     (case setItem theme (localStorage s) of Inl e \<Rightarrow> s | Inr st \<Rightarrow> s\<lparr>localStorage := st\<rparr>)"

definition getCurrentTheme :: "state \<Rightarrow> string" where
  "getCurrentTheme s =
     (case getStoredThemePreference s of
        Some stored \<Rightarrow> (if stored \<noteq> [] then stored else getSystemThemePreference s)
      | None \<Rightarrow> getSystemThemePreference s)"

definition applyTheme :: "string \<Rightarrow> state \<Rightarrow> state" where
  "applyTheme theme s =
     (if theme = THEME_DARK then s\<lparr>data_theme := Some THEME_DARK\<rparr>
      else s\<lparr>data_theme := None\<rparr>)"

definition toggleTheme :: "state \<Rightarrow> string \<times> state" where
  "toggleTheme s =
     (let newTheme = (if data_theme s = Some THEME_DARK then THEME_LIGHT else THEME_DARK);
          s1 = s\<lparr>data_theme_transitioning := True\<rparr>;
          s2 = applyTheme newTheme s1;
          s3 = setStoredThemePreference newTheme s2
      in (newTheme, s3\<lparr>timeouts := timeouts s3 @ [(clock s3 + 300, ClearTransitioning)]\<rparr>))"

text \<open>The theme part of \<^verbatim>\<open>init\<close>: the initial theme is applied at once.\<close>

definition init :: "state \<Rightarrow> state" where
  "init s = applyTheme (getCurrentTheme s) s"

section \<open>Viewport, modal and showcase\<close>

definition isMobile :: "state \<Rightarrow> bool" where
  "isMobile s = (innerWidth s \<le> 768)"

definition openMobileModal :: "string option \<Rightarrow> state \<Rightarrow> state" where
  "openMobileModal imageId s =
     (case mobileModal s of None \<Rightarrow> s | Some a \<Rightarrow>
      (case mobileShowcase s of None \<Rightarrow> s | Some ms \<Rightarrow>
         (let s1 = (if truthy imageId
                    then s\<lparr>mobileShowcase := Some (ms\<lparr>ms_data_selected := imageId\<rparr>)\<rparr>
                    else s)
          in s1\<lparr>mobileModal := Some True, body_overflow := ''hidden''\<rparr>)))"

definition closeMobileModal :: "state \<Rightarrow> state" where
  "closeMobileModal s =
     (case mobileModal s of None \<Rightarrow> s
      | Some a \<Rightarrow> s\<lparr>mobileModal := Some False, body_overflow := []\<rparr>)"

text \<open>
  The delay handed to \<^verbatim>\<open>setTimeout\<close> in \<^verbatim>\<open>updateImageVisibility\<close>, the literal 250 of
  the source.
\<close>

definition FADE_SWAP_DELAY :: nat where
  "FADE_SWAP_DELAY = 250"

text \<open>
  The \<open>showcase\<close> argument of the source is always the result of
  \<^verbatim>\<open>document.querySelector('.showcase')\<close>, the field \<open>showcase\<close> of the state;
  \<open>skipTransition\<close> left out is \<open>False\<close>.
\<close>

definition updateImageVisibility :: "string option \<Rightarrow> bool \<Rightarrow> state \<Rightarrow> state" where
  "updateImageVisibility imageId skipTransition s =
     (case showcase s of None \<Rightarrow> s | Some sc \<Rightarrow>
      (case imageId of None \<Rightarrow> s | Some img \<Rightarrow>
         if img = [] then s
         else (case sc_wrapper sc of None \<Rightarrow> s | Some f \<Rightarrow>
           if skipTransition
           then s\<lparr>showcase := Some (sc\<lparr>sc_data_selected := Some img\<rparr>)\<rparr>
           else s\<lparr>showcase := Some (sc\<lparr>sc_wrapper := Some True\<rparr>),
                  timeouts := timeouts s @ [(clock s + FADE_SWAP_DELAY, SwapImage img)]\<rparr>)))"

text \<open>What a pending \<^verbatim>\<open>setTimeout\<close> callback does when it runs.\<close>

fun runAction :: "action \<Rightarrow> state \<Rightarrow> state" where
  "runAction (SwapImage img) s =
     s\<lparr>showcase := map_option
          (\<lambda>sc. sc\<lparr>sc_data_selected := Some img,
                    sc_wrapper := map_option (\<lambda>f. False) (sc_wrapper sc)\<rparr>) (showcase s)\<rparr>"
| "runAction ClearTransitioning s = s\<lparr>data_theme_transitioning := False\<rparr>"

section \<open>Progress indicator\<close>

definition startProgressBar :: "state \<Rightarrow> state" where
  "startProgressBar s =
     (case carouselProgress s of None \<Rightarrow> s\<lparr>progressBar := False\<rparr>
      | Some pb \<Rightarrow>
         (case pb_bar pb of None \<Rightarrow> s\<lparr>progressBar := True\<rparr>
          | Some b \<Rightarrow>
             s\<lparr>progressBar := True,
               carouselProgress := Some (pb\<lparr>pb_paused := False, pb_running := False,
                                            pb_bar := Some (''none'', ''0%'')\<rparr>),
               frames := frames s + 1\<rparr>))"

text \<open>The callback \<^verbatim>\<open>startProgressBar\<close> hands to \<^verbatim>\<open>requestAnimationFrame\<close>.\<close>

definition progressFrame :: "state \<Rightarrow> state" where
  "progressFrame s =
     s\<lparr>carouselProgress := map_option
          (\<lambda>pb. pb\<lparr>pb_bar := map_option (\<lambda>b. (''width 10s linear'', ''100%'')) (pb_bar pb),
                    pb_running := True\<rparr>) (carouselProgress s)\<rparr>"

definition pauseProgressBar :: "state \<Rightarrow> state" where
  "pauseProgressBar s =
     (let s1 = (if \<not> progressBar s then s\<lparr>progressBar := (carouselProgress s \<noteq> None)\<rparr> else s)
      in if progressBar s1
         then s1\<lparr>carouselProgress := map_option
                   (\<lambda>pb. pb\<lparr>pb_running := False, pb_paused := True\<rparr>) (carouselProgress s1)\<rparr>
         else s1)"

section \<open>Carousel\<close>

definition stopCarousel :: "state \<Rightarrow> state" where
  "stopCarousel s =
     (case carouselIntervalId s of None \<Rightarrow> s
      | Some t \<Rightarrow> s\<lparr>intervals := removeAll t (intervals s), carouselIntervalId := None\<rparr>)"

text \<open>
  The \<^verbatim>\<open>forEach\<close> that looks for the selected entry: every entry with the class
  overwrites \<open>currentIndex\<close>, so the last one wins.
\<close>

fun scanSelected :: "entry list \<Rightarrow> nat \<Rightarrow> int \<Rightarrow> int" where
  "scanSelected [] index currentIndex = currentIndex"
| "scanSelected (e # es) index currentIndex =
     scanSelected es (Suc index) (if selected e then int index else currentIndex)"

text \<open>
  JavaScript's \<^verbatim>\<open>%\<close> on integers: the result has the sign of the dividend, and a zero
  divisor gives \<^verbatim>\<open>NaN\<close> (\<open>None\<close>).
\<close>

definition js_rem :: "int \<Rightarrow> int \<Rightarrow> int option" where
  "js_rem a b = (if b = 0 then None else Some (sgn a * (\<bar>a\<bar> mod \<bar>b\<bar>)))"

definition deselectAll :: "entry list \<Rightarrow> entry list" where
  "deselectAll es = map (\<lambda>e. e\<lparr>selected := False\<rparr>) es"

definition selectAt :: "nat \<Rightarrow> entry list \<Rightarrow> entry list" where
  "selectAt k es = es[k := (es ! k)\<lparr>selected := True\<rparr>]"

text \<open>
  The callback of \<^verbatim>\<open>setInterval\<close>. Its \<open>entries\<close> and \<open>showcase\<close> are those of the call
  of \<^verbatim>\<open>startCarousel\<close> that created it, which are the document's. Where \<open>nextIndex\<close> is
  \<^verbatim>\<open>NaN\<close> or out of range, \<^verbatim>\<open>entries[nextIndex]\<close> is \<^verbatim>\<open>undefined\<close>: the loop that
  clears the class still runs, and reading \<^verbatim>\<open>nextEntry.classList\<close> then throws.
\<close>

definition carouselTick :: "state \<Rightarrow> state outcome" where
  "carouselTick s =
     (if isMobile s \<or> carouselPaused s then Returned (stopCarousel s)
      else
        (let currentIndex = scanSelected (entries s) 0 (- 1);
             nextIndex = js_rem (currentIndex + 1) (int (length (entries s)));
             s1 = s\<lparr>entries := deselectAll (entries s)\<rparr>
         in case nextIndex of
              None \<Rightarrow> Threw TypeError s1
            | Some k \<Rightarrow>
                if 0 \<le> k \<and> nat k < length (entries s)
                then
                  (let s2 = s1\<lparr>entries := selectAt (nat k) (entries s1)\<rparr>;
                       imageId = data_image (entries s ! nat k);
                       s3 = (if truthy imageId then updateImageVisibility imageId False s2 else s2)
                   in Returned (startProgressBar s3))
                else Threw TypeError s1))"

definition startCarousel :: "state \<Rightarrow> state" where
  "startCarousel s =
     (if isMobile s \<or> entries s = [] \<or> showcase s = None \<or> carouselPaused s then s
      else
        (let s1 = stopCarousel s;
             s2 = startProgressBar s1;
             t = nextTimerId s2
         in s2\<lparr>carouselIntervalId := Some t,
                intervals := intervals s2 @ [t],
                nextTimerId := Suc t\<rparr>))"

definition pauseCarousel :: "state \<Rightarrow> state" where
  "pauseCarousel s = pauseProgressBar (stopCarousel (s\<lparr>carouselPaused := True\<rparr>))"

definition restartCarousel :: "state \<Rightarrow> state" where
  "restartCarousel s = startCarousel (stopCarousel s)"

section \<open>Entry selection\<close>

text \<open>
  \<^verbatim>\<open>selectEntry\<close> is attached to the entries of the document, so its \<open>entry\<close> argument is
  the entry at an index below the length of the list.
\<close>

definition selectEntry :: "nat \<Rightarrow> bool \<Rightarrow> state \<Rightarrow> state" where
  "selectEntry i isUserAction s =
     (let imageId = data_image (entries s ! i)
      in if isMobile s
         then (if truthy imageId then openMobileModal imageId s else s)
         else
           (let s1 = s\<lparr>entries := selectAt i (deselectAll (entries s))\<rparr>;
                s2 = (if truthy imageId then updateImageVisibility imageId False s1 else s1)
            in if isUserAction then pauseCarousel s2 else s2))"

text \<open>\<^verbatim>\<open>querySelector\<close>: the first element, in document order, that matches.\<close>

fun findIndex :: "('a \<Rightarrow> bool) \<Rightarrow> 'a list \<Rightarrow> nat option" where
  "findIndex P [] = None"
| "findIndex P (x # xs) = (if P x then Some 0 else map_option Suc (findIndex P xs))"

definition setupEntrySelection :: "state \<Rightarrow> state" where
  "setupEntrySelection s =
     (if showcase s = None then s
      else
        (let s1 = (case findIndex selected (entries s) of
                     None \<Rightarrow> s
                   | Some d \<Rightarrow>
                       if \<not> isMobile s
                       then (let imageId = data_image (entries s ! d)
                             in if truthy imageId then updateImageVisibility imageId True s else s)
                       else s)
         in if \<not> isMobile s1 then startCarousel s1 else s1))"

section \<open>Selector texts\<close>

text \<open>
  \<^verbatim>\<open>handleResize\<close> looks the entry of an image up with
  \<^verbatim>\<open>document.querySelector('.entry.selectable[data-image="' + currentImageId + '"]')\<close>:
  the image identifier is pasted into the text of a selector, which the browser then
  parses. Strings are modelled as the bytes of their UTF-8 encoding. The parsing follows
  CSS Syntax Level 3: the text is preprocessed (CR, FF and CR LF become LF, NUL becomes
  U+FFFD), and the string token that starts after \<^verbatim>\<open>data-image="\<close> runs to the next
  double quote that is not escaped, with backslash escapes replaced by what they stand for.
\<close>

definition DQUOTE :: char where
  "DQUOTE = CHR 0x22"

definition BACKSLASH :: char where
  "BACKSLASH = CHR 0x5C"

definition LF :: char where
  "LF = CHR 0x0A"

definition isWhitespace :: "char \<Rightarrow> bool" where
  "isWhitespace c = (c = CHR 0x20 \<or> c = CHR 0x09 \<or> c = LF)"

definition hexValue :: "char \<Rightarrow> int option" where
  "hexValue c =
     (let n = (of_char c :: int)
      in if 48 \<le> n \<and> n \<le> 57 then Some (n - 48)
         else if 65 \<le> n \<and> n \<le> 70 then Some (n - 55)
         else if 97 \<le> n \<and> n \<le> 102 then Some (n - 87)
         else None)"

text \<open>
  The bytes of the code point a hexadecimal escape stands for; zero, a surrogate and a
  number beyond U+10FFFF stand for U+FFFD.
\<close>

definition utf8 :: "int \<Rightarrow> string" where
  "utf8 v =
     (let u = (if v = 0 \<or> (55296 \<le> v \<and> v \<le> 57343) \<or> 1114111 < v then 65533 else v)
      in if u < 128 then [char_of u]
         else if u < 2048 then [char_of (192 + u div 64), char_of (128 + u mod 64)]
         else if u < 65536
         then [char_of (224 + u div 4096), char_of (128 + (u div 64) mod 64),
               char_of (128 + u mod 64)]
         else [char_of (240 + u div 262144), char_of (128 + (u div 4096) mod 64),
               char_of (128 + (u div 64) mod 64), char_of (128 + u mod 64)])"

fun preprocess :: "string \<Rightarrow> string" where
  "preprocess [] = []"
| "preprocess (c # cs) =
     (if c = CHR 0x0D
      then (case cs of
              [] \<Rightarrow> [LF]
            | d # ds \<Rightarrow> if d = LF then LF # preprocess ds else LF # preprocess cs)
      else if c = CHR 0x0C then LF # preprocess cs
      else if c = CHR 0x00 then utf8 65533 @ preprocess cs
      else c # preprocess cs)"

text \<open>
  Consuming a string token whose opening double quote has been read. The token is closed
  by a double quote (\<open>Closed\<close>, with its value and the text that follows), is a bad string
  when it meets a newline, or is still open where the text ends. After a backslash, a
  newline is skipped, up to six hexadecimal digits followed by at most one whitespace stand
  for a code point, and any other character stands for itself.
\<close>

datatype string_token = Closed string string | BadString | OpenAtEnd

datatype escape_mode = Plain | Escape | Hex nat int

fun consumeString :: "escape_mode \<Rightarrow> string \<Rightarrow> string \<Rightarrow> string_token" where
  "consumeString m acc [] = OpenAtEnd"
| "consumeString Plain acc (c # cs) =
     (if c = DQUOTE then Closed acc cs
      else if c = LF then BadString
      else if c = BACKSLASH then consumeString Escape acc cs
      else consumeString Plain (acc @ [c]) cs)"
| "consumeString Escape acc (c # cs) =
     (if c = LF then consumeString Plain acc cs
      else (case hexValue c of
              Some h \<Rightarrow> consumeString (Hex 1 h) acc cs
            | None \<Rightarrow> consumeString Plain (acc @ [c]) cs))"
| "consumeString (Hex n v) acc (c # cs) =
     (case (if n < 6 then hexValue c else None) of
        Some h \<Rightarrow> consumeString (Hex (Suc n) (16 * v + h)) acc cs
      | None \<Rightarrow>
          if isWhitespace c then consumeString Plain (acc @ utf8 v) cs
          else if c = DQUOTE then Closed (acc @ utf8 v) cs
          else if c = BACKSLASH then consumeString Escape (acc @ utf8 v) cs
          else consumeString Plain (acc @ utf8 v @ [c]) cs)"

text \<open>
  What the text says once the string token is closed. Followed by the closing bracket and
  nothing else, it is the attribute selector for the value of the token (\<open>ByValue\<close>).
  Followed by anything that can neither close the bracket nor be the modifier \<^verbatim>\<open>i\<close> or
  \<^verbatim>\<open>s\<close> nor start a comment, it is not a selector (\<open>Invalid\<close>). In the remaining cases the
  image identifier has closed the string early and the text goes on, as a modifier or as
  further selectors; what that text matches depends on parts of the document that are not
  modelled, and the model does not interpret it (\<open>Foreign\<close>). Nor does it interpret a
  text whose string token is still open at its end.
\<close>

datatype verdict = Invalid | ByValue string | Foreign

definition afterString :: "string \<Rightarrow> string \<Rightarrow> verdict" where
  "afterString v tail =
     (case dropWhile isWhitespace tail of
        [] \<Rightarrow> Foreign
      | c # cs \<Rightarrow>
          if c = CHR '']'' then (if cs = [] then ByValue v else Foreign)
          else if c \<in> set ''iIsS'' \<or> c = BACKSLASH then Foreign
          else if c = CHR ''/'' \<and> take 1 cs = ''*'' then Foreign
          else Invalid)"

definition attributeValue :: "string \<Rightarrow> verdict" where
  "attributeValue rest =
     (case consumeString Plain [] rest of
        Closed v tail \<Rightarrow> afterString v tail
      | BadString \<Rightarrow> Invalid
      | OpenAtEnd \<Rightarrow> Foreign)"

definition SELECTOR_HEAD :: string where
  "SELECTOR_HEAD = ''.entry.selectable[data-image='' @ [DQUOTE]"

definition selectorVerdict :: "string \<Rightarrow> verdict" where
  "selectorVerdict text =
     (let t = preprocess text
      in if take (length SELECTOR_HEAD) t = SELECTOR_HEAD
         then attributeValue (drop (length SELECTOR_HEAD) t)
         else Foreign)"

text \<open>
  \<^verbatim>\<open>document.querySelector\<close> on such a text: a text that is not a selector throws a
  SyntaxError; the attribute selector gives the first entry, in document order, whose
  \<^verbatim>\<open>data-image\<close> is the value (every element of \<open>entries\<close> has the classes \<^verbatim>\<open>entry\<close>
  and \<^verbatim>\<open>selectable\<close>), or \<^verbatim>\<open>null\<close>; for a text the model does not interpret the
  answer is the environment's.
\<close>

definition querySelector :: "string \<Rightarrow> state \<Rightarrow> js_error + nat option" where
  "querySelector text s =
     (case selectorVerdict text of
        Invalid \<Rightarrow> Inl SyntaxError
      | ByValue v \<Rightarrow> Inr (findIndex (\<lambda>e. data_image e = Some v) (entries s))
      | Foreign \<Rightarrow> engineAnswer s)"

section \<open>Resize\<close>

text \<open>
  The handler throws where \<^verbatim>\<open>querySelector\<close> does: the modal is closed and the class
  \<^verbatim>\<open>selected\<close> is cleared by then, and the rest of the handler, the assignment to
  \<open>wasMobile\<close> included, is not run.
\<close>

definition handleResize :: "state \<Rightarrow> state outcome" where
  "handleResize s =
     (let nowMobile = isMobile s;
          r1 = (if wasMobile s \<and> \<not> nowMobile
                then
                  (let ra =
                     (if mobileModal s = Some True
                      then
                        (let currentImageId =
                               (case mobileShowcase s of None \<Rightarrow> None
                                | Some ms \<Rightarrow> ms_data_selected ms);
                             sb = closeMobileModal s
                         in case currentImageId of
                              None \<Rightarrow> Returned sb
                            | Some img \<Rightarrow>
                                if img = [] then Returned sb
                                else
                                  (let sc = sb\<lparr>entries := deselectAll (entries sb)\<rparr>
                                   in case querySelector
                                             (''.entry.selectable[data-image='' @ [DQUOTE] @ img @
                                              [DQUOTE] @ '']'') sc of
                                        Inl e \<Rightarrow> Threw e sc
                                      | Inr correspondingEntry \<Rightarrow>
                                          (let sd = (case correspondingEntry of
                                                       None \<Rightarrow> sc
                                                     | Some k \<Rightarrow>
                                                         if k < length (entries sc)
                                                         then sc\<lparr>entries := selectAt k (entries sc)\<rparr>
                                                         else sc)
                                           in Returned
                                                (if showcase sd \<noteq> None
                                                 then updateImageVisibility currentImageId True sd
                                                 else sd))))
                      else Returned s)
                   in case ra of
                        Threw e sa \<Rightarrow> Threw e sa
                      | Returned sa \<Rightarrow> Returned (startCarousel (sa\<lparr>carouselPaused := False\<rparr>)))
                else Returned s)
      in case r1 of
           Threw e s1 \<Rightarrow> Threw e s1
         | Returned s1 \<Rightarrow>
             (let s2 = (if \<not> wasMobile s \<and> nowMobile
                        then
                          (let sa = pauseProgressBar (stopCarousel s1)
                           in case findIndex selected (entries sa) of
                                None \<Rightarrow> sa
                              | Some k \<Rightarrow>
                                  (let currentImageId = data_image (entries sa ! k)
                                   in case mobileShowcase sa of
                                        None \<Rightarrow> sa
                                      | Some ms \<Rightarrow>
                                          if truthy currentImageId
                                          then sa\<lparr>mobileShowcase :=
                                                    Some (ms\<lparr>ms_data_selected := currentImageId\<rparr>)\<rparr>
                                          else sa))
                        else s1)
              in Returned (s2\<lparr>wasMobile := nowMobile\<rparr>)))"

definition initResizeTracking :: "state \<Rightarrow> state" where
  "initResizeTracking s = s\<lparr>wasMobile := isMobile s\<rparr>"

section \<open>Start-up and events\<close>

text \<open>
  Loading the script gives its variables their initial values; the browser's timer tables
  are empty then. The page itself (elements, attributes, width, storage) is whatever it is.
\<close>

definition scriptLoad :: "state \<Rightarrow> state" where
  "scriptLoad p =
     p\<lparr>wasMobile := False, carouselIntervalId := None, carouselPaused := False,
       progressBar := False, intervals := [], nextTimerId := 0, timeouts := [], frames := 0\<rparr>"

text \<open>
  The last three statements of the script, on a document that is no longer loading (so that
  \<^verbatim>\<open>initEntrySelection\<close> calls \<^verbatim>\<open>setupEntrySelection\<close> at once).
\<close>

definition boot :: "state \<Rightarrow> state" where
  "boot p = initResizeTracking (setupEntrySelection (init (scriptLoad p)))"

text \<open>
  What can happen afterwards. The width of the viewport changes only with a resize event,
  whose handler runs before any other callback. A click on an entry, or Enter or Space on
  it, calls \<^verbatim>\<open>selectEntry(entry, true)\<close>; these handlers, and those that dismiss the modal,
  exist only when \<^verbatim>\<open>setupEntrySelection\<close> found the showcase. An interval timer fires
  only while it is alive, at any time (the period is not modelled). One millisecond passing
  runs the \<^verbatim>\<open>setTimeout\<close> callbacks that are due, in the order of their registration.
  An exception thrown by a callback ends that callback only: what it wrote before stays
  written and what it had still to do is not done. The answer of the selector engine to
  the selector texts the model does not interpret may change at any time (\<open>Engine\<close>).
\<close>

datatype event =
    Resize nat
  | Click nat
  | KeyDown nat string
  | Tick nat
  | Millisecond
  | AnimationFrame
  | DismissModal
  | ToggleTheme
  | SystemTheme bool
  | Engine "js_error + nat option"

definition isDue :: "nat \<Rightarrow> nat \<times> action \<Rightarrow> bool" where
  "isDue t p = (fst p \<le> t)"

definition fireDue :: "state \<Rightarrow> state" where
  "fireDue s =
     fold (\<lambda>p. runAction (snd p)) (filter (isDue (clock s)) (timeouts s))
       (s\<lparr>timeouts := filter (\<lambda>p. \<not> isDue (clock s) p) (timeouts s)\<rparr>)"

fun step :: "state \<Rightarrow> event \<Rightarrow> state" where
  "step s (Resize w) =
     (case handleResize (s\<lparr>innerWidth := w\<rparr>) of Returned s' \<Rightarrow> s' | Threw e s' \<Rightarrow> s')"
| "step s (Click i) =
     (if showcase s \<noteq> None \<and> i < length (entries s) then selectEntry i True s else s)"
| "step s (KeyDown i key) =
     (if showcase s \<noteq> None \<and> i < length (entries s) \<and> (key = ''Enter'' \<or> key = '' '')
      then selectEntry i True s else s)"
| "step s (Tick t) =
     (if t \<in> set (intervals s)
      then (case carouselTick s of Returned s' \<Rightarrow> s' | Threw e s' \<Rightarrow> s')
      else s)"
| "step s Millisecond = fireDue (s\<lparr>clock := Suc (clock s)\<rparr>)"
| "step s AnimationFrame = (if frames s = 0 then s else progressFrame (s\<lparr>frames := 0\<rparr>))"
| "step s DismissModal = (if showcase s \<noteq> None then closeMobileModal s else s)"
| "step s ToggleTheme = snd (toggleTheme s)"
| "step s (SystemTheme b) =
     (case matchMedia s of
        None \<Rightarrow> s
      | Some m \<Rightarrow>
          (let s1 = s\<lparr>matchMedia := Some b\<rparr>
           in if \<not> truthy (getStoredThemePreference s1)
              then applyTheme (if b then THEME_DARK else THEME_LIGHT) s1
              else s1))"
| "step s (Engine a) = s\<lparr>engineAnswer := a\<rparr>"

definition run :: "state \<Rightarrow> event list \<Rightarrow> state" where
  "run s evs = foldl step s evs"

text \<open>The entries that carry the class \<^verbatim>\<open>selected\<close>, by index.\<close>

definition selectedIndices :: "entry list \<Rightarrow> nat list" where
  "selectedIndices es = filter (\<lambda>k. selected (es ! k)) [0..<length es]"

text \<open>Consecutive firings of the interval callback, stopping at the first that throws.\<close>

fun ticks :: "nat \<Rightarrow> state \<Rightarrow> state outcome" where
  "ticks 0 s = Returned s"
| "ticks (Suc n) s =
     (case carouselTick s of Returned s' \<Rightarrow> ticks n s' | Threw e s' \<Rightarrow> Threw e s')"

section \<open>An example page\<close>

text \<open>
  Four entries with the images a, b, c and d, the second one marked as the default, on a
  viewport 1024 pixels wide; every element the script looks for is there.
\<close>

definition examplePage :: state where
  "examplePage =
     \<lparr>innerWidth = 1024, localStorage = Stored None, matchMedia = Some True,
      engineAnswer = Inr None, clock = 0,
      data_theme = None, data_theme_transitioning = False,
      entries = [\<lparr>data_image = Some ''a'', selected = False\<rparr>,
                 \<lparr>data_image = Some ''b'', selected = True\<rparr>,
                 \<lparr>data_image = Some ''c'', selected = False\<rparr>,
                 \<lparr>data_image = Some ''d'', selected = False\<rparr>],
      showcase = Some \<lparr>sc_data_selected = None, sc_wrapper = Some False\<rparr>,
      mobileShowcase = Some \<lparr>ms_data_selected = None\<rparr>,
      mobileModal = Some False, body_overflow = [],
      carouselProgress = Some \<lparr>pb_running = False, pb_paused = False, pb_bar = Some ([], [])\<rparr>,
      wasMobile = False, carouselIntervalId = None, carouselPaused = False, progressBar = False,
      intervals = [], nextTimerId = 0, timeouts = [], frames = 0\<rparr>"

section \<open>Predicates on states and histories\<close>

text \<open>
  The script's view of the timer table is consistent: the only interval timer alive is the
  one \<open>carouselIntervalId\<close> holds, and one is alive only on desktop, with \<open>wasMobile\<close>
  unset, unpaused, with an entry and a showcase.
\<close>

definition timersOk :: "state \<Rightarrow> bool" where
  "timersOk s =
     (case carouselIntervalId s of
        None \<Rightarrow> intervals s = []
      | Some t \<Rightarrow> intervals s = [t] \<and> t < nextTimerId s \<and> \<not> isMobile s \<and> \<not> wasMobile s \<and>
                  \<not> carouselPaused s \<and> entries s \<noteq> [] \<and> showcase s \<noteq> None)"

text \<open>
  A resize event returns to desktop when its handler takes the branch
  \<^verbatim>\<open>wasMobile && !nowMobile\<close>; a history has no return to desktop when none of its events
  does, each judged in the state it arrives in.
\<close>

fun returnsToDesktop :: "state \<Rightarrow> event \<Rightarrow> bool" where
  "returnsToDesktop s (Resize w) = (wasMobile s \<and> \<not> isMobile (s\<lparr>innerWidth := w\<rparr>))"
| "returnsToDesktop s e = False"

fun noReturnToDesktop :: "state \<Rightarrow> event list \<Rightarrow> bool" where
  "noReturnToDesktop s [] = True"
| "noReturnToDesktop s (e # es) = (\<not> returnsToDesktop s e \<and> noReturnToDesktop (step s e) es)"

text \<open>The example page with a single entry in place of its four.\<close>

definition singlePage :: state where
  "singlePage = examplePage\<lparr>entries := [\<lparr>data_image = Some ''a'', selected = True\<rparr>]\<rparr>"

text \<open>The carousel is paused by the user: the flag is set and no timer is alive.\<close>

definition halted :: "state \<Rightarrow> bool" where
  "halted s = (carouselPaused s \<and> carouselIntervalId s = None \<and> intervals s = [])"

text \<open>
  The example page with an image identifier that holds a double quote: its first entry has
  the image \<^verbatim>\<open>x"y\<close>.
\<close>

definition quotePage :: state where
  "quotePage =
     examplePage\<lparr>entries :=
       [\<lparr>data_image = Some [CHR ''x'', DQUOTE, CHR ''y''], selected = False\<rparr>,
        \<lparr>data_image = Some ''b'', selected = True\<rparr>,
        \<lparr>data_image = Some ''c'', selected = False\<rparr>,
        \<lparr>data_image = Some ''d'', selected = False\<rparr>]\<rparr>"

text \<open>
  An image identifier is plain when it holds no double quote, backslash, newline, carriage
  return, form feed or NUL: pasted into the selector text it is then the value of the
  string token, and the text is the attribute selector for it.
\<close>

definition plainChar :: "char \<Rightarrow> bool" where
  "plainChar c =
     (c \<noteq> DQUOTE \<and> c \<noteq> BACKSLASH \<and> c \<noteq> LF \<and> c \<noteq> CHR 0x0D \<and> c \<noteq> CHR 0x0C \<and> c \<noteq> CHR 0x00)"

definition plainImage :: "string option \<Rightarrow> bool" where
  "plainImage i = (case i of None \<Rightarrow> True | Some x \<Rightarrow> list_all plainChar x)"

text \<open>The image identifier the mobile showcase displays.\<close>

definition mobileImage :: "state \<Rightarrow> string option" where
  "mobileImage s = (case mobileShowcase s of None \<Rightarrow> None | Some ms \<Rightarrow> ms_data_selected ms)"

text \<open>
  On a page in order every image identifier is plain, \<open>wasMobile\<close> agrees with the
  viewport, and while the modal is open the page is in mobile mode, the showcase exists and
  the mobile showcase displays a non-empty image identifier that some entry carries.
\<close>

definition inOrder :: "state \<Rightarrow> bool" where
  "inOrder s =
     (list_all (\<lambda>e. plainImage (data_image e)) (entries s) \<and>
      wasMobile s = isMobile s \<and>
      (mobileModal s = Some True \<longrightarrow>
         wasMobile s \<and> showcase s \<noteq> None \<and> truthy (mobileImage s) \<and>
         mobileImage s \<in> set (map data_image (entries s))))"

section \<open>Time and the fade\<close>

text \<open>
  Modelled from the spec: the total duration of the fade switch. The source holds only the
  delay of the swap (\<open>FADE_SWAP_DELAY\<close>); how long the showcase takes to fade back in is
  set by the style sheet, which is not part of the sources. The spec gives the total as
  500 ms ("fade-switch total duration = 500 ms with swap at 250 ms").
\<close>

definition FADE_SWITCH_TOTAL :: nat where
  "FADE_SWITCH_TOTAL = 500"

text \<open>\<open>elapse d s\<close>: \<open>d\<close> milliseconds pass with no other event.\<close>

fun elapse :: "nat \<Rightarrow> state \<Rightarrow> state" where
  "elapse 0 s = s"
| "elapse (Suc n) s = step (elapse n s) Millisecond"

text \<open>
  The image identifier the showcase displays (its \<^verbatim>\<open>data-selected\<close>), and whether its
  wrapper carries the class \<^verbatim>\<open>fading\<close>.
\<close>

definition shownImage :: "state \<Rightarrow> string option" where
  "shownImage s = (case showcase s of None \<Rightarrow> None | Some sc \<Rightarrow> sc_data_selected sc)"

definition fading :: "state \<Rightarrow> bool" where
  "fading s = (case showcase s of None \<Rightarrow> False | Some sc \<Rightarrow> sc_wrapper sc = Some True)"

fun isSwap :: "action \<Rightarrow> bool" where
  "isSwap (SwapImage img) = True"
| "isSwap ClearTransitioning = False"

text \<open>Some fade is under way: a swap is among the pending callbacks.\<close>

definition swapPending :: "state \<Rightarrow> bool" where
  "swapPending s = list_ex (\<lambda>p. isSwap (snd p)) (timeouts s)"

text \<open>
  Two states of which the first has one more pending swap, registered last, and which
  otherwise agree on the clock, the other pending callbacks and the image displayed.
\<close>

definition ahead :: "nat \<Rightarrow> string \<Rightarrow> state \<Rightarrow> state \<Rightarrow> bool" where
  "ahead T img a b =
     (clock a = clock b \<and> timeouts a = timeouts b @ [(T, SwapImage img)] \<and>
      shownImage a = shownImage b \<and> (showcase a = None) = (showcase b = None))"

text \<open>No pending swap is due before \<open>T\<close>.\<close>

definition swapsFrom :: "nat \<Rightarrow> state \<Rightarrow> bool" where
  "swapsFrom T s = (\<forall>p\<in>set (timeouts s). isSwap (snd p) \<longrightarrow> T \<le> fst p)"

section \<open>What the operations leave unchanged\<close>

lemma openMobileModal_frame [simp]:
  "innerWidth (openMobileModal i s) = innerWidth s"
  "localStorage (openMobileModal i s) = localStorage s"
  "matchMedia (openMobileModal i s) = matchMedia s"
  "engineAnswer (openMobileModal i s) = engineAnswer s"
  "clock (openMobileModal i s) = clock s"
  "data_theme (openMobileModal i s) = data_theme s"
  "data_theme_transitioning (openMobileModal i s) = data_theme_transitioning s"
  "entries (openMobileModal i s) = entries s"
  "showcase (openMobileModal i s) = showcase s"
  "carouselProgress (openMobileModal i s) = carouselProgress s"
  "wasMobile (openMobileModal i s) = wasMobile s"
  "carouselIntervalId (openMobileModal i s) = carouselIntervalId s"
  "carouselPaused (openMobileModal i s) = carouselPaused s"
  "progressBar (openMobileModal i s) = progressBar s"
  "intervals (openMobileModal i s) = intervals s"
  "nextTimerId (openMobileModal i s) = nextTimerId s"
  "timeouts (openMobileModal i s) = timeouts s"
  "frames (openMobileModal i s) = frames s"
  by (simp_all add: openMobileModal_def split: option.splits)

lemma closeMobileModal_frame [simp]:
  "innerWidth (closeMobileModal s) = innerWidth s"
  "localStorage (closeMobileModal s) = localStorage s"
  "matchMedia (closeMobileModal s) = matchMedia s"
  "engineAnswer (closeMobileModal s) = engineAnswer s"
  "clock (closeMobileModal s) = clock s"
  "data_theme (closeMobileModal s) = data_theme s"
  "data_theme_transitioning (closeMobileModal s) = data_theme_transitioning s"
  "entries (closeMobileModal s) = entries s"
  "showcase (closeMobileModal s) = showcase s"
  "mobileShowcase (closeMobileModal s) = mobileShowcase s"
  "carouselProgress (closeMobileModal s) = carouselProgress s"
  "wasMobile (closeMobileModal s) = wasMobile s"
  "carouselIntervalId (closeMobileModal s) = carouselIntervalId s"
  "carouselPaused (closeMobileModal s) = carouselPaused s"
  "progressBar (closeMobileModal s) = progressBar s"
  "intervals (closeMobileModal s) = intervals s"
  "nextTimerId (closeMobileModal s) = nextTimerId s"
  "timeouts (closeMobileModal s) = timeouts s"
  "frames (closeMobileModal s) = frames s"
  by (simp_all add: closeMobileModal_def split: option.splits)

lemma updateImageVisibility_frame [simp]:
  "innerWidth (updateImageVisibility i b s) = innerWidth s"
  "localStorage (updateImageVisibility i b s) = localStorage s"
  "matchMedia (updateImageVisibility i b s) = matchMedia s"
  "engineAnswer (updateImageVisibility i b s) = engineAnswer s"
  "clock (updateImageVisibility i b s) = clock s"
  "data_theme (updateImageVisibility i b s) = data_theme s"
  "data_theme_transitioning (updateImageVisibility i b s) = data_theme_transitioning s"
  "entries (updateImageVisibility i b s) = entries s"
  "mobileShowcase (updateImageVisibility i b s) = mobileShowcase s"
  "mobileModal (updateImageVisibility i b s) = mobileModal s"
  "body_overflow (updateImageVisibility i b s) = body_overflow s"
  "carouselProgress (updateImageVisibility i b s) = carouselProgress s"
  "wasMobile (updateImageVisibility i b s) = wasMobile s"
  "carouselIntervalId (updateImageVisibility i b s) = carouselIntervalId s"
  "carouselPaused (updateImageVisibility i b s) = carouselPaused s"
  "progressBar (updateImageVisibility i b s) = progressBar s"
  "intervals (updateImageVisibility i b s) = intervals s"
  "nextTimerId (updateImageVisibility i b s) = nextTimerId s"
  "frames (updateImageVisibility i b s) = frames s"
  by (simp_all add: updateImageVisibility_def split: option.splits)

lemma runAction_frame [simp]:
  "innerWidth (runAction a s) = innerWidth s"
  "localStorage (runAction a s) = localStorage s"
  "matchMedia (runAction a s) = matchMedia s"
  "engineAnswer (runAction a s) = engineAnswer s"
  "clock (runAction a s) = clock s"
  "data_theme (runAction a s) = data_theme s"
  "entries (runAction a s) = entries s"
  "mobileShowcase (runAction a s) = mobileShowcase s"
  "mobileModal (runAction a s) = mobileModal s"
  "body_overflow (runAction a s) = body_overflow s"
  "carouselProgress (runAction a s) = carouselProgress s"
  "wasMobile (runAction a s) = wasMobile s"
  "carouselIntervalId (runAction a s) = carouselIntervalId s"
  "carouselPaused (runAction a s) = carouselPaused s"
  "progressBar (runAction a s) = progressBar s"
  "intervals (runAction a s) = intervals s"
  "nextTimerId (runAction a s) = nextTimerId s"
  "timeouts (runAction a s) = timeouts s"
  "frames (runAction a s) = frames s"
  by (cases a; simp)+

lemma startProgressBar_frame [simp]:
  "innerWidth (startProgressBar s) = innerWidth s"
  "localStorage (startProgressBar s) = localStorage s"
  "matchMedia (startProgressBar s) = matchMedia s"
  "engineAnswer (startProgressBar s) = engineAnswer s"
  "clock (startProgressBar s) = clock s"
  "data_theme (startProgressBar s) = data_theme s"
  "data_theme_transitioning (startProgressBar s) = data_theme_transitioning s"
  "entries (startProgressBar s) = entries s"
  "showcase (startProgressBar s) = showcase s"
  "mobileShowcase (startProgressBar s) = mobileShowcase s"
  "mobileModal (startProgressBar s) = mobileModal s"
  "body_overflow (startProgressBar s) = body_overflow s"
  "wasMobile (startProgressBar s) = wasMobile s"
  "carouselIntervalId (startProgressBar s) = carouselIntervalId s"
  "carouselPaused (startProgressBar s) = carouselPaused s"
  "intervals (startProgressBar s) = intervals s"
  "nextTimerId (startProgressBar s) = nextTimerId s"
  "timeouts (startProgressBar s) = timeouts s"
  by (simp_all add: startProgressBar_def split: option.splits)

lemma progressFrame_frame [simp]:
  "innerWidth (progressFrame s) = innerWidth s"
  "localStorage (progressFrame s) = localStorage s"
  "matchMedia (progressFrame s) = matchMedia s"
  "engineAnswer (progressFrame s) = engineAnswer s"
  "clock (progressFrame s) = clock s"
  "data_theme (progressFrame s) = data_theme s"
  "data_theme_transitioning (progressFrame s) = data_theme_transitioning s"
  "entries (progressFrame s) = entries s"
  "showcase (progressFrame s) = showcase s"
  "mobileShowcase (progressFrame s) = mobileShowcase s"
  "mobileModal (progressFrame s) = mobileModal s"
  "body_overflow (progressFrame s) = body_overflow s"
  "wasMobile (progressFrame s) = wasMobile s"
  "carouselIntervalId (progressFrame s) = carouselIntervalId s"
  "carouselPaused (progressFrame s) = carouselPaused s"
  "progressBar (progressFrame s) = progressBar s"
  "intervals (progressFrame s) = intervals s"
  "nextTimerId (progressFrame s) = nextTimerId s"
  "timeouts (progressFrame s) = timeouts s"
  "frames (progressFrame s) = frames s"
  by (simp_all add: progressFrame_def)

lemma pauseProgressBar_frame [simp]:
  "innerWidth (pauseProgressBar s) = innerWidth s"
  "localStorage (pauseProgressBar s) = localStorage s"
  "matchMedia (pauseProgressBar s) = matchMedia s"
  "engineAnswer (pauseProgressBar s) = engineAnswer s"
  "clock (pauseProgressBar s) = clock s"
  "data_theme (pauseProgressBar s) = data_theme s"
  "data_theme_transitioning (pauseProgressBar s) = data_theme_transitioning s"
  "entries (pauseProgressBar s) = entries s"
  "showcase (pauseProgressBar s) = showcase s"
  "mobileShowcase (pauseProgressBar s) = mobileShowcase s"
  "mobileModal (pauseProgressBar s) = mobileModal s"
  "body_overflow (pauseProgressBar s) = body_overflow s"
  "wasMobile (pauseProgressBar s) = wasMobile s"
  "carouselIntervalId (pauseProgressBar s) = carouselIntervalId s"
  "carouselPaused (pauseProgressBar s) = carouselPaused s"
  "intervals (pauseProgressBar s) = intervals s"
  "nextTimerId (pauseProgressBar s) = nextTimerId s"
  "timeouts (pauseProgressBar s) = timeouts s"
  "frames (pauseProgressBar s) = frames s"
  by (simp_all add: pauseProgressBar_def Let_def)

lemma stopCarousel_frame [simp]:
  "innerWidth (stopCarousel s) = innerWidth s"
  "localStorage (stopCarousel s) = localStorage s"
  "matchMedia (stopCarousel s) = matchMedia s"
  "engineAnswer (stopCarousel s) = engineAnswer s"
  "clock (stopCarousel s) = clock s"
  "data_theme (stopCarousel s) = data_theme s"
  "data_theme_transitioning (stopCarousel s) = data_theme_transitioning s"
  "entries (stopCarousel s) = entries s"
  "showcase (stopCarousel s) = showcase s"
  "mobileShowcase (stopCarousel s) = mobileShowcase s"
  "mobileModal (stopCarousel s) = mobileModal s"
  "body_overflow (stopCarousel s) = body_overflow s"
  "carouselProgress (stopCarousel s) = carouselProgress s"
  "wasMobile (stopCarousel s) = wasMobile s"
  "carouselPaused (stopCarousel s) = carouselPaused s"
  "progressBar (stopCarousel s) = progressBar s"
  "nextTimerId (stopCarousel s) = nextTimerId s"
  "timeouts (stopCarousel s) = timeouts s"
  "frames (stopCarousel s) = frames s"
  by (simp_all add: stopCarousel_def split: option.splits)

lemma applyTheme_frame [simp]:
  "innerWidth (applyTheme th s) = innerWidth s"
  "localStorage (applyTheme th s) = localStorage s"
  "matchMedia (applyTheme th s) = matchMedia s"
  "engineAnswer (applyTheme th s) = engineAnswer s"
  "clock (applyTheme th s) = clock s"
  "data_theme_transitioning (applyTheme th s) = data_theme_transitioning s"
  "entries (applyTheme th s) = entries s"
  "showcase (applyTheme th s) = showcase s"
  "mobileShowcase (applyTheme th s) = mobileShowcase s"
  "mobileModal (applyTheme th s) = mobileModal s"
  "body_overflow (applyTheme th s) = body_overflow s"
  "carouselProgress (applyTheme th s) = carouselProgress s"
  "wasMobile (applyTheme th s) = wasMobile s"
  "carouselIntervalId (applyTheme th s) = carouselIntervalId s"
  "carouselPaused (applyTheme th s) = carouselPaused s"
  "progressBar (applyTheme th s) = progressBar s"
  "intervals (applyTheme th s) = intervals s"
  "nextTimerId (applyTheme th s) = nextTimerId s"
  "timeouts (applyTheme th s) = timeouts s"
  "frames (applyTheme th s) = frames s"
  by (simp_all add: applyTheme_def)

lemma setStoredThemePreference_frame [simp]:
  "innerWidth (setStoredThemePreference th s) = innerWidth s"
  "matchMedia (setStoredThemePreference th s) = matchMedia s"
  "engineAnswer (setStoredThemePreference th s) = engineAnswer s"
  "clock (setStoredThemePreference th s) = clock s"
  "data_theme (setStoredThemePreference th s) = data_theme s"
  "data_theme_transitioning (setStoredThemePreference th s) = data_theme_transitioning s"
  "entries (setStoredThemePreference th s) = entries s"
  "showcase (setStoredThemePreference th s) = showcase s"
  "mobileShowcase (setStoredThemePreference th s) = mobileShowcase s"
  "mobileModal (setStoredThemePreference th s) = mobileModal s"
  "body_overflow (setStoredThemePreference th s) = body_overflow s"
  "carouselProgress (setStoredThemePreference th s) = carouselProgress s"
  "wasMobile (setStoredThemePreference th s) = wasMobile s"
  "carouselIntervalId (setStoredThemePreference th s) = carouselIntervalId s"
  "carouselPaused (setStoredThemePreference th s) = carouselPaused s"
  "progressBar (setStoredThemePreference th s) = progressBar s"
  "intervals (setStoredThemePreference th s) = intervals s"
  "nextTimerId (setStoredThemePreference th s) = nextTimerId s"
  "timeouts (setStoredThemePreference th s) = timeouts s"
  "frames (setStoredThemePreference th s) = frames s"
  by (simp_all add: setStoredThemePreference_def split: sum.splits)

lemma isMobile_frame [simp]:
  "isMobile (openMobileModal i s) = isMobile s"
  "isMobile (closeMobileModal s) = isMobile s"
  "isMobile (updateImageVisibility i b s) = isMobile s"
  "isMobile (runAction a s) = isMobile s"
  "isMobile (startProgressBar s) = isMobile s"
  "isMobile (progressFrame s) = isMobile s"
  "isMobile (pauseProgressBar s) = isMobile s"
  "isMobile (stopCarousel s) = isMobile s"
  "isMobile (applyTheme th s) = isMobile s"
  "isMobile (setStoredThemePreference th s) = isMobile s"
  "isMobile (localStorage_update g_localStorage s) = isMobile s"
  "isMobile (matchMedia_update g_matchMedia s) = isMobile s"
  "isMobile (engineAnswer_update g_engineAnswer s) = isMobile s"
  "isMobile (clock_update g_clock s) = isMobile s"
  "isMobile (data_theme_update g_data_theme s) = isMobile s"
  "isMobile (data_theme_transitioning_update g_data_theme_transitioning s) = isMobile s"
  "isMobile (entries_update g_entries s) = isMobile s"
  "isMobile (showcase_update g_showcase s) = isMobile s"
  "isMobile (mobileShowcase_update g_mobileShowcase s) = isMobile s"
  "isMobile (mobileModal_update g_mobileModal s) = isMobile s"
  "isMobile (body_overflow_update g_body_overflow s) = isMobile s"
  "isMobile (carouselProgress_update g_carouselProgress s) = isMobile s"
  "isMobile (wasMobile_update g_wasMobile s) = isMobile s"
  "isMobile (carouselIntervalId_update g_carouselIntervalId s) = isMobile s"
  "isMobile (carouselPaused_update g_carouselPaused s) = isMobile s"
  "isMobile (progressBar_update g_progressBar s) = isMobile s"
  "isMobile (intervals_update g_intervals s) = isMobile s"
  "isMobile (nextTimerId_update g_nextTimerId s) = isMobile s"
  "isMobile (timeouts_update g_timeouts s) = isMobile s"
  "isMobile (frames_update g_frames s) = isMobile s"
  by (simp_all add: isMobile_def)

lemma showcase_present [simp]:
  "(showcase (updateImageVisibility i b s) = None) = (showcase s = None)"
  "(showcase (runAction a s) = None) = (showcase s = None)"
  by (cases a; simp add: updateImageVisibility_def split: option.splits)+

lemma showcase_present_ex [simp]:
  "(\<exists>y. showcase (updateImageVisibility i b s) = Some y) = (\<exists>y. showcase s = Some y)"
  "(\<exists>y. showcase (runAction a s) = Some y) = (\<exists>y. showcase s = Some y)"
  by (cases a; auto simp: updateImageVisibility_def split: option.splits)+

lemma entries_empty [simp]:
  "(deselectAll es = []) = (es = [])"
  "(selectAt k es = []) = (es = [])"
  by (simp_all add: deselectAll_def selectAt_def)

lemma fold_runAction_frame [simp]:
  "innerWidth (fold (\<lambda>p. runAction (snd p)) xs s) = innerWidth s"
  "wasMobile (fold (\<lambda>p. runAction (snd p)) xs s) = wasMobile s"
  "carouselIntervalId (fold (\<lambda>p. runAction (snd p)) xs s) = carouselIntervalId s"
  "intervals (fold (\<lambda>p. runAction (snd p)) xs s) = intervals s"
  "nextTimerId (fold (\<lambda>p. runAction (snd p)) xs s) = nextTimerId s"
  "carouselPaused (fold (\<lambda>p. runAction (snd p)) xs s) = carouselPaused s"
  "entries (fold (\<lambda>p. runAction (snd p)) xs s) = entries s"
  "mobileModal (fold (\<lambda>p. runAction (snd p)) xs s) = mobileModal s"
  "mobileShowcase (fold (\<lambda>p. runAction (snd p)) xs s) = mobileShowcase s"
  "timeouts (fold (\<lambda>p. runAction (snd p)) xs s) = timeouts s"
  "clock (fold (\<lambda>p. runAction (snd p)) xs s) = clock s"
  "(showcase (fold (\<lambda>p. runAction (snd p)) xs s) = None) = (showcase s = None)"
  by (induction xs arbitrary: s; simp)+

lemma fireDue_frame [simp]:
  "carouselIntervalId (fireDue s) = carouselIntervalId s"
  "intervals (fireDue s) = intervals s"
  "nextTimerId (fireDue s) = nextTimerId s"
  "carouselPaused (fireDue s) = carouselPaused s"
  "entries (fireDue s) = entries s"
  "innerWidth (fireDue s) = innerWidth s"
  "wasMobile (fireDue s) = wasMobile s"
  "mobileModal (fireDue s) = mobileModal s"
  "mobileShowcase (fireDue s) = mobileShowcase s"
  "clock (fireDue s) = clock s"
  "(showcase (fireDue s) = None) = (showcase s = None)"
  by (simp_all add: fireDue_def)

section \<open>Lists of entries\<close>

lemma scanSelected_snoc:
  "scanSelected (es @ [e]) i c = (if selected e then int (i + length es) else scanSelected es i c)"
  by (induction es arbitrary: i c) auto

lemma selectedIndices_snoc:
  "selectedIndices (es @ [e]) = selectedIndices es @ (if selected e then [length es] else [])"
proof -
  have "filter (\<lambda>k. selected ((es @ [e]) ! k)) [0..<length es] = filter (\<lambda>k. selected (es ! k)) [0..<length es]"
    by (rule filter_cong) (auto simp: nth_append)
  then show ?thesis by (simp add: selectedIndices_def)
qed

lemma scanSelected_last:
  "scanSelected es 0 c = (if selectedIndices es = [] then c else int (last (selectedIndices es)))"
proof (induction es rule: rev_induct)
  case Nil
  show ?case by (simp add: selectedIndices_def)
next
  case (snoc e es)
  then show ?case by (simp add: scanSelected_snoc selectedIndices_snoc)
qed

lemma filter_eq_upt: "k < n \<Longrightarrow> filter (\<lambda>j. j = k) [0..<n] = [k]"
proof (induction n)
  case 0
  then show ?case by simp
next
  case (Suc n)
  show ?case
  proof (cases "k = n")
    case True
    have "filter (\<lambda>j. j = n) [0..<n] = []" by (auto simp: filter_empty_conv)
    with True show ?thesis by simp
  next
    case False
    with Suc show ?thesis by simp
  qed
qed

lemma length_deselectAll [simp]: "length (deselectAll es) = length es"
  by (simp add: deselectAll_def)

lemma length_selectAt [simp]: "length (selectAt k es) = length es"
  by (simp add: selectAt_def)

lemma selectedIndices_selectAt:
  assumes "k < length es"
  shows "selectedIndices (selectAt k (deselectAll es)) = [k]"
proof -
  have "filter (\<lambda>j. selected (selectAt k (deselectAll es) ! j)) [0..<length es]
        = filter (\<lambda>j. j = k) [0..<length es]"
    using assms by (intro filter_cong) (auto simp: selectAt_def deselectAll_def nth_list_update)
  with assms show ?thesis by (simp add: selectedIndices_def filter_eq_upt)
qed

lemma selectedIndices_empty: "(selectedIndices es = []) = (\<forall>e\<in>set es. \<not> selected e)"
  by (auto simp: selectedIndices_def filter_empty_conv all_set_conv_all_nth)

lemma js_rem_nat: "0 < n \<Longrightarrow> js_rem (int a) (int n) = Some (int (a mod n))"
  by (simp add: js_rem_def zmod_int sgn_if)

lemma findIndex_None: "(findIndex P xs = None) = (\<forall>x\<in>set xs. \<not> P x)"
  by (induction xs) auto

lemma findIndex_Some:
  "findIndex P xs = Some k \<Longrightarrow> k < length xs \<and> P (xs ! k)"
  by (induction xs arbitrary: k) (auto split: if_splits)

lemma findIndex_mem: "x \<in> set (map f es) \<Longrightarrow> \<exists>k. findIndex (\<lambda>e. f e = x) es = Some k"
  by (cases "findIndex (\<lambda>e. f e = x) es") (auto simp: findIndex_None)

lemma images_deselectAll [simp]: "map data_image (deselectAll es) = map data_image es"
  by (simp add: deselectAll_def)

lemma images_selectAt [simp]: "map data_image (selectAt k es) = map data_image es"
proof (cases "k < length es")
  case True
  then show ?thesis by (simp add: selectAt_def map_update list_update_same_conv)
next
  case False
  then show ?thesis by (simp add: selectAt_def not_less list_update_beyond)
qed

lemma findIndex_deselectAll [simp]:
  "findIndex (\<lambda>e. data_image e = x) (deselectAll es) = findIndex (\<lambda>e. data_image e = x) es"
  by (induction es) (simp_all add: deselectAll_def)

lemma plain_images: "list_all (\<lambda>e. plainImage (data_image e)) es = list_all plainImage (map data_image es)"
  by (simp add: list_all_iff)

lemma plain_of_member:
  assumes "list_all (\<lambda>e. plainImage (data_image e)) es" and "Some img \<in> set (map data_image es)"
  shows "list_all plainChar img"
proof -
  from assms(2) obtain e where e: "e \<in> set es" "data_image e = Some img" by auto
  from assms(1) e(1) have "plainImage (data_image e)" by (simp add: list_all_iff)
  with e(2) show ?thesis by (simp add: plainImage_def)
qed

section \<open>Selector texts of plain image identifiers\<close>

text \<open>
  Pasted into the selector text, a plain image identifier is the value of the string token,
  and \<^verbatim>\<open>querySelector\<close> gives the first entry that carries it.
\<close>

lemma preprocess_plain: "list_all plainChar xs \<Longrightarrow> preprocess xs = xs"
  by (induction xs) (auto simp: plainChar_def)

lemma consumeString_plain:
  "list_all plainChar img \<Longrightarrow>
   consumeString Plain acc (img @ DQUOTE # tail) = Closed (acc @ img) tail"
  by (induction img arbitrary: acc) (auto simp: plainChar_def)

lemma selectorVerdict_plain:
  assumes "list_all plainChar img"
  shows "selectorVerdict (''.entry.selectable[data-image='' @ [DQUOTE] @ img @ [DQUOTE] @ '']'') = ByValue img"
proof -
  let ?h = "''.entry.selectable[data-image=''"
  have pre: "preprocess (?h @ [DQUOTE] @ img @ [DQUOTE] @ '']'') = SELECTOR_HEAD @ img @ DQUOTE # '']''"
  proof -
    have "preprocess (?h @ DQUOTE # img @ DQUOTE # '']'') = ?h @ preprocess (DQUOTE # img @ DQUOTE # '']'')"
      by (simp add: DQUOTE_def LF_def)
    also have "preprocess (DQUOTE # img @ DQUOTE # '']'') = DQUOTE # preprocess (img @ DQUOTE # '']'')"
      by (simp add: DQUOTE_def)
    also have "preprocess (img @ DQUOTE # '']'') = img @ DQUOTE # '']''"
      using assms by (induction img) (auto simp: plainChar_def DQUOTE_def LF_def)
    finally show ?thesis by (simp add: SELECTOR_HEAD_def)
  qed
  have "attributeValue (img @ DQUOTE # '']'') = ByValue img"
    using consumeString_plain [OF assms, of "[]" "'']''"]
    by (simp add: attributeValue_def afterString_def isWhitespace_def LF_def)
  with pre show ?thesis by (simp add: selectorVerdict_def Let_def)
qed

lemma querySelector_plain:
  assumes "list_all plainChar img"
  shows "querySelector (''.entry.selectable[data-image='' @ [DQUOTE] @ img @ [DQUOTE] @ '']'') s =
     Inr (findIndex (\<lambda>e. data_image e = Some img) (entries s))"
  unfolding querySelector_def selectorVerdict_plain [OF assms] by simp

text \<open>
  Other image identifiers: a double quote ends the string early and the text is not a
  selector; a backslash escapes what follows it, so that the value is not the identifier;
  a newline makes a bad string; a backslash at the end escapes the closing double quote.
\<close>

lemma selector_text_examples:
  "selectorVerdict (''.entry.selectable[data-image='' @ [DQUOTE] @ ''ai-web'' @ [DQUOTE] @ '']'') =
     ByValue ''ai-web''"
  "selectorVerdict (''.entry.selectable[data-image='' @ [DQUOTE] @ [CHR ''x'', DQUOTE, CHR ''y''] @
     [DQUOTE] @ '']'') = Invalid"
  "selectorVerdict (''.entry.selectable[data-image='' @ [DQUOTE] @ [CHR ''x'', BACKSLASH, CHR ''y''] @
     [DQUOTE] @ '']'') = ByValue ''xy''"
  "selectorVerdict (''.entry.selectable[data-image='' @ [DQUOTE] @ [CHR ''a'', BACKSLASH, CHR ''b''] @
     [DQUOTE] @ '']'') = ByValue [CHR ''a'', CHR 0x0B]"
  "selectorVerdict (''.entry.selectable[data-image='' @ [DQUOTE] @ [CHR ''x'', CHR 0x0A, CHR ''y''] @
     [DQUOTE] @ '']'') = Invalid"
  "selectorVerdict (''.entry.selectable[data-image='' @ [DQUOTE] @ [CHR ''x'', BACKSLASH] @
     [DQUOTE] @ '']'') = Foreign"
  by code_simp+

section \<open>Theme\<close>

text \<open>
  Claim C8. \<^verbatim>\<open>getCurrentTheme\<close> (the spec's \<^verbatim>\<open>getEffectiveTheme\<close>) returns the stored
  preference when the store can be read and holds a value (a non-empty string: the empty
  string is falsy, and is not a value the store is meant to hold); otherwise, whether the key
  is absent or the read throws, it returns dark when the dark media query matches and light
  when it does not or cannot be asked. A throwing read is caught: the function is total.
\<close>

theorem getCurrentTheme_priority:
  "(\<forall>v. getItem (localStorage s) = Inr (Some v) \<and> v \<noteq> [] \<longrightarrow> getCurrentTheme s = v) \<and>
   ((getItem (localStorage s) = Inr None \<or> (\<exists>e. getItem (localStorage s) = Inl e)) \<and>
      matchMedia s = Some True \<longrightarrow> getCurrentTheme s = THEME_DARK) \<and>
   ((getItem (localStorage s) = Inr None \<or> (\<exists>e. getItem (localStorage s) = Inl e)) \<and>
      matchMedia s \<noteq> Some True \<longrightarrow> getCurrentTheme s = THEME_LIGHT)"
  by (auto simp: getCurrentTheme_def getStoredThemePreference_def getSystemThemePreference_def)

theorem getCurrentTheme_priority_witness:
  "getCurrentTheme (examplePage\<lparr>localStorage := Stored (Some ''light'')\<rparr>) = ''light'' \<and>
   getCurrentTheme examplePage = ''dark'' \<and>
   getCurrentTheme (examplePage\<lparr>localStorage := Unavailable\<rparr>) = ''dark'' \<and>
   getCurrentTheme (examplePage\<lparr>localStorage := Unavailable, matchMedia := None\<rparr>) = ''light''"
  using getCurrentTheme_priority [of "examplePage\<lparr>localStorage := Stored (Some ''light'')\<rparr>"]
        getCurrentTheme_priority [of examplePage]
        getCurrentTheme_priority [of "examplePage\<lparr>localStorage := Unavailable\<rparr>"]
        getCurrentTheme_priority [of "examplePage\<lparr>localStorage := Unavailable, matchMedia := None\<rparr>"]
  by (simp add: examplePage_def getItem_def THEME_DARK_def THEME_LIGHT_def)

text \<open>
  Claim C9. \<^verbatim>\<open>applyTheme\<close> is idempotent: for every theme value and every starting state,
  applying the same theme twice in succession gives the state that applying it once gives.
\<close>

theorem applyTheme_idempotent:
  "applyTheme theme (applyTheme theme s) = applyTheme theme s"
  by (simp add: applyTheme_def)

section \<open>The carousel tick\<close>

lemma carouselTick_advance:
  assumes "\<not> isMobile s" "\<not> carouselPaused s" "entries s \<noteq> []"
  shows "\<exists>s'. carouselTick s = Returned s' \<and>
           selectedIndices (entries s') =
             [(if selectedIndices (entries s) = [] then 0
               else Suc (last (selectedIndices (entries s))) mod length (entries s))] \<and>
           \<not> isMobile s' \<and> \<not> carouselPaused s' \<and> length (entries s') = length (entries s)"
proof -
  let ?n = "length (entries s)"
  let ?cur = "scanSelected (entries s) 0 (- 1)"
  let ?k = "if selectedIndices (entries s) = [] then 0
               else Suc (last (selectedIndices (entries s))) mod ?n"
  from assms have n: "0 < ?n" by simp
  have "?cur + 1 = int (if selectedIndices (entries s) = [] then 0 else Suc (last (selectedIndices (entries s))))"
    by (simp add: scanSelected_last)
  then have rem: "js_rem (?cur + 1) (int ?n) = Some (int ?k)"
    using js_rem_nat [OF n] by (simp only: ) auto
  have k: "?k < ?n" using n by simp
  show ?thesis
    using assms k
    apply (simp only: carouselTick_def Let_def rem)
    apply (simp add: selectedIndices_selectAt)
    done
qed

lemma carouselTick_last:
  assumes "\<not> isMobile s" "\<not> carouselPaused s" "selectedIndices (entries s) = [i]" "i < length (entries s)"
  shows "\<exists>s'. carouselTick s = Returned s' \<and>
           selectedIndices (entries s') = [Suc i mod length (entries s)] \<and>
           \<not> isMobile s' \<and> \<not> carouselPaused s' \<and> length (entries s') = length (entries s)"
proof -
  from assms(4) have "entries s \<noteq> []" by (cases "entries s") simp_all
  from carouselTick_advance [OF assms(1,2) this] assms(3) show ?thesis by simp
qed

lemma ticks_cycle:
  assumes "\<not> isMobile s" "\<not> carouselPaused s" "selectedIndices (entries s) = [i]" "i < length (entries s)"
  shows "\<exists>s'. ticks n s = Returned s' \<and>
           selectedIndices (entries s') = [(i + n) mod length (entries s)] \<and>
           \<not> isMobile s' \<and> \<not> carouselPaused s' \<and> length (entries s') = length (entries s)"
  using assms
proof (induction n arbitrary: s i)
  case 0
  then show ?case by simp
next
  case (Suc n)
  from carouselTick_last [OF Suc.prems] obtain s1 where
    s1: "carouselTick s = Returned s1" "selectedIndices (entries s1) = [Suc i mod length (entries s)]"
        "\<not> isMobile s1" "\<not> carouselPaused s1" "length (entries s1) = length (entries s)"
    by blast
  from Suc.prems(4) have pos: "0 < length (entries s)" by arith
  have "Suc i mod length (entries s) < length (entries s1)" using pos s1(5) by simp
  from Suc.IH [OF s1(3,4), of "Suc i mod length (entries s)"] s1(2) this s1(5)
  obtain s' where s': "ticks n s1 = Returned s'"
     "selectedIndices (entries s') = [(Suc i mod length (entries s) + n) mod length (entries s)]"
     "\<not> isMobile s'" "\<not> carouselPaused s'" "length (entries s') = length (entries s)"
    by auto
  have "(Suc i mod length (entries s) + n) mod length (entries s) = (i + Suc n) mod length (entries s)"
    by (simp add: mod_add_left_eq)
  with s1(1) s' show ?case by simp
qed

text \<open>
  Claim C2. On desktop and unpaused, with more than one entry of which exactly the one at
  index \<open>i\<close> is selected, one tick of the carousel returns and leaves exactly the entry at
  index \<open>(i + 1) mod N\<close> selected, and \<open>N\<close> consecutive ticks return and leave exactly the
  entry at index \<open>i\<close> selected again.
\<close>

theorem carousel_tick_cyclic:
  assumes "1 < length (entries s)" and "i < length (entries s)"
    and "selectedIndices (entries s) = [i]"
    and "\<not> isMobile s" and "\<not> carouselPaused s"
  shows "(\<exists>s'. carouselTick s = Returned s' \<and>
               selectedIndices (entries s') = [(i + 1) mod length (entries s)]) \<and>
         (\<exists>s'. ticks (length (entries s)) s = Returned s' \<and> selectedIndices (entries s') = [i])"
proof -
  from carouselTick_last [OF assms(4,5,3,2)] have a: "\<exists>s'. carouselTick s = Returned s' \<and>
               selectedIndices (entries s') = [(i + 1) mod length (entries s)]" by auto
  from ticks_cycle [OF assms(4,5,3,2), of "length (entries s)"] assms(2)
  have b: "\<exists>s'. ticks (length (entries s)) s = Returned s' \<and> selectedIndices (entries s') = [i]"
    by auto
  from a b show ?thesis by blast
qed

theorem carousel_tick_cyclic_witness:
  "1 < length (entries (examplePage\<lparr>entries := selectAt 3 (deselectAll (entries examplePage))\<rparr>)) \<and>
   (\<exists>s'. carouselTick (examplePage\<lparr>entries := selectAt 3 (deselectAll (entries examplePage))\<rparr>) = Returned s' \<and>
         selectedIndices (entries s') = [0]) \<and>
   (\<exists>s'. ticks 4 (examplePage\<lparr>entries := selectAt 3 (deselectAll (entries examplePage))\<rparr>) = Returned s' \<and>
         selectedIndices (entries s') = [3])"
proof -
  let ?s = "examplePage\<lparr>entries := selectAt 3 (deselectAll (entries examplePage))\<rparr>"
  have h1: "1 < length (entries ?s)" by (simp add: examplePage_def)
  have h2: "3 < length (entries ?s)" by (simp add: examplePage_def)
  have h3: "selectedIndices (entries ?s) = [3]" by code_simp
  have h4: "\<not> isMobile ?s" by (simp add: examplePage_def isMobile_def)
  have h5: "\<not> carouselPaused ?s" by (simp add: examplePage_def)
  have n: "length (entries ?s) = 4" by (simp add: examplePage_def)
  from carousel_tick_cyclic [OF h1 h2 h3 h4 h5] h1 show ?thesis by (simp only: n) simp
qed

text \<open>
  Claim C10. On desktop and unpaused, with a non-empty list of entries none of which is
  selected, the scan of a tick leaves \<open>currentIndex\<close> at \<open>-1\<close>, the next index is \<open>0\<close>, and
  the tick returns (it does not throw) with exactly the first entry selected.
\<close>

theorem carousel_tick_without_selection:
  assumes "entries s \<noteq> []" and "\<forall>e\<in>set (entries s). \<not> selected e"
    and "\<not> isMobile s" and "\<not> carouselPaused s"
  shows "scanSelected (entries s) 0 (- 1) = - 1 \<and>
         js_rem (scanSelected (entries s) 0 (- 1) + 1) (int (length (entries s))) = Some 0 \<and>
         (\<exists>s'. carouselTick s = Returned s' \<and> selectedIndices (entries s') = [0])"
proof -
  from assms(2) have e: "selectedIndices (entries s) = []" by (simp add: selectedIndices_empty)
  then have a: "scanSelected (entries s) 0 (- 1) = - 1" by (simp add: scanSelected_last)
  from assms(1) have b: "js_rem (scanSelected (entries s) 0 (- 1) + 1) (int (length (entries s))) = Some 0"
    by (simp add: a js_rem_def)
  from carouselTick_advance [OF assms(3,4,1)] e
  have c: "\<exists>s'. carouselTick s = Returned s' \<and> selectedIndices (entries s') = [0]" by auto
  from a b c show ?thesis by blast
qed

theorem carousel_tick_without_selection_witness:
  "entries (examplePage\<lparr>entries := deselectAll (entries examplePage)\<rparr>) \<noteq> [] \<and>
   scanSelected (entries (examplePage\<lparr>entries := deselectAll (entries examplePage)\<rparr>)) 0 (- 1) = - 1 \<and>
   (\<exists>s'. carouselTick (examplePage\<lparr>entries := deselectAll (entries examplePage)\<rparr>) = Returned s' \<and>
         selectedIndices (entries s') = [0])"
  using carousel_tick_without_selection [of "examplePage\<lparr>entries := deselectAll (entries examplePage)\<rparr>"]
  by (simp add: examplePage_def isMobile_def deselectAll_def)

section \<open>Invariants of the event loop\<close>

lemma selectEntry_timersOk:
  "timersOk s \<Longrightarrow> timersOk (selectEntry i u s)"
  by (auto simp: timersOk_def selectEntry_def Let_def pauseCarousel_def stopCarousel_def split: option.splits)

lemma carouselTick_timersOk:
  "timersOk s \<Longrightarrow> carouselTick s = Returned s' \<or> carouselTick s = Threw e s' \<Longrightarrow> timersOk s'"
  by (auto simp: timersOk_def carouselTick_def Let_def stopCarousel_def
      split: option.splits if_splits)

lemma handleResize_timersOk:
  assumes "timersOk s"
    and "handleResize (s\<lparr>innerWidth := w\<rparr>) = Returned s' \<or> handleResize (s\<lparr>innerWidth := w\<rparr>) = Threw e s'"
  shows "timersOk s'"
  using assms
  by (auto simp: timersOk_def handleResize_def Let_def startCarousel_def stopCarousel_def
      closeMobileModal_def isMobile_def
      split: option.splits if_splits sum.splits outcome.splits)

lemma fireDue_timersOk: "timersOk s \<Longrightarrow> timersOk (fireDue (s\<lparr>clock := c\<rparr>))"
  by (simp add: timersOk_def fireDue_def isMobile_def split: option.splits)

lemma step_timersOk:
  assumes "timersOk s"
  shows "timersOk (step s e)"
proof (cases e)
  case (Resize w)
  with assms show ?thesis using handleResize_timersOk [of s w] by (auto split: outcome.splits)
next
  case (Click i)
  with assms show ?thesis by (simp add: selectEntry_timersOk)
next
  case (KeyDown i k)
  with assms show ?thesis by (simp add: selectEntry_timersOk)
next
  case (Tick t)
  with assms show ?thesis using carouselTick_timersOk [of s] by (auto split: outcome.splits)
next
  case Millisecond
  with assms show ?thesis by (simp add: fireDue_timersOk)
next
  case AnimationFrame
  with assms show ?thesis by (simp add: timersOk_def progressFrame_def isMobile_def split: option.splits)
next
  case DismissModal
  with assms show ?thesis by (simp add: timersOk_def split: option.splits)
next
  case ToggleTheme
  with assms show ?thesis by (simp add: timersOk_def toggleTheme_def Let_def isMobile_def split: option.splits)
next
  case (SystemTheme b)
  with assms show ?thesis by (simp add: timersOk_def Let_def isMobile_def split: option.splits)
next
  case (Engine a)
  with assms show ?thesis by (simp add: timersOk_def isMobile_def split: option.splits)
qed

lemma run_timersOk: "timersOk s \<Longrightarrow> timersOk (run s evs)"
  unfolding run_def by (induction evs arbitrary: s) (simp_all add: step_timersOk)

lemma boot_timersOk: "timersOk (boot p)"
  by (auto simp: timersOk_def boot_def initResizeTracking_def setupEntrySelection_def Let_def
      startCarousel_def stopCarousel_def init_def scriptLoad_def isMobile_def split: option.splits)

lemma step_halted:
  assumes "halted s" "\<not> returnsToDesktop s e"
  shows "halted (step s e)"
proof (cases e)
  case (Resize w)
  with assms show ?thesis
    by (auto simp: halted_def handleResize_def Let_def stopCarousel_def split: option.splits)
next
  case (Click i)
  with assms show ?thesis
    by (auto simp: halted_def selectEntry_def Let_def pauseCarousel_def stopCarousel_def)
next
  case (KeyDown i k)
  with assms show ?thesis
    by (auto simp: halted_def selectEntry_def Let_def pauseCarousel_def stopCarousel_def)
next
  case (Tick t)
  with assms show ?thesis by (simp add: halted_def)
next
  case Millisecond
  with assms show ?thesis by (simp add: halted_def)
next
  case AnimationFrame
  with assms show ?thesis by (simp add: halted_def progressFrame_def)
next
  case DismissModal
  with assms show ?thesis by (simp add: halted_def)
next
  case ToggleTheme
  with assms show ?thesis by (simp add: halted_def toggleTheme_def Let_def)
next
  case (SystemTheme b)
  with assms show ?thesis by (simp add: halted_def Let_def split: option.splits)
next
  case (Engine a)
  with assms show ?thesis by (simp add: halted_def)
qed

lemma run_halted:
  "halted s \<Longrightarrow> noReturnToDesktop s evs \<Longrightarrow> halted (run s evs)"
  unfolding run_def by (induction evs arbitrary: s) (simp_all add: step_halted)

section \<open>Pages in order\<close>

text \<open>
  On a page in order the resize handler returns, and leaves the page in order. A page whose
  image identifiers are plain and whose modal is closed at load is in order once the script
  has run, and stays so.
\<close>

lemma mobileImage_frame [simp]:
  "mobileImage (closeMobileModal s) = mobileImage s"
  "mobileImage (updateImageVisibility i b s) = mobileImage s"
  "mobileImage (runAction a s) = mobileImage s"
  "mobileImage (startProgressBar s) = mobileImage s"
  "mobileImage (progressFrame s) = mobileImage s"
  "mobileImage (pauseProgressBar s) = mobileImage s"
  "mobileImage (stopCarousel s) = mobileImage s"
  "mobileImage (applyTheme th s) = mobileImage s"
  "mobileImage (setStoredThemePreference th s) = mobileImage s"
  "mobileImage (innerWidth_update g_innerWidth s) = mobileImage s"
  "mobileImage (localStorage_update g_localStorage s) = mobileImage s"
  "mobileImage (matchMedia_update g_matchMedia s) = mobileImage s"
  "mobileImage (engineAnswer_update g_engineAnswer s) = mobileImage s"
  "mobileImage (clock_update g_clock s) = mobileImage s"
  "mobileImage (data_theme_update g_data_theme s) = mobileImage s"
  "mobileImage (data_theme_transitioning_update g_data_theme_transitioning s) = mobileImage s"
  "mobileImage (entries_update g_entries s) = mobileImage s"
  "mobileImage (showcase_update g_showcase s) = mobileImage s"
  "mobileImage (mobileModal_update g_mobileModal s) = mobileImage s"
  "mobileImage (body_overflow_update g_body_overflow s) = mobileImage s"
  "mobileImage (carouselProgress_update g_carouselProgress s) = mobileImage s"
  "mobileImage (wasMobile_update g_wasMobile s) = mobileImage s"
  "mobileImage (carouselIntervalId_update g_carouselIntervalId s) = mobileImage s"
  "mobileImage (carouselPaused_update g_carouselPaused s) = mobileImage s"
  "mobileImage (progressBar_update g_progressBar s) = mobileImage s"
  "mobileImage (intervals_update g_intervals s) = mobileImage s"
  "mobileImage (nextTimerId_update g_nextTimerId s) = mobileImage s"
  "mobileImage (timeouts_update g_timeouts s) = mobileImage s"
  "mobileImage (frames_update g_frames s) = mobileImage s"
  by (simp_all add: mobileImage_def)

lemma handleResize_inOrder:
  assumes "inOrder s" and "timersOk s"
  shows "\<exists>s'. handleResize (s\<lparr>innerWidth := w\<rparr>) = Returned s' \<and> inOrder s' \<and>
              map data_image (entries s') = map data_image (entries s)"
proof (cases "mobileModal s = Some True \<and> wasMobile s \<and> \<not> isMobile (s\<lparr>innerWidth := w\<rparr>)")
  case True
  with assms(1) have mi: "truthy (mobileImage s)" "mobileImage s \<in> set (map data_image (entries s))"
      "showcase s \<noteq> None"
    by (auto simp: inOrder_def)
  from mi(1) obtain ms where ms: "mobileShowcase s = Some ms"
    by (cases "mobileShowcase s") (auto simp: mobileImage_def)
  from mi(1) ms obtain img where img: "ms_data_selected ms = Some img" "img \<noteq> []"
    by (cases "ms_data_selected ms") (auto simp: mobileImage_def)
  from ms img(1) have mimg: "mobileImage s = Some img" by (simp add: mobileImage_def)
  from assms(1) have "list_all (\<lambda>e. plainImage (data_image e)) (entries s)" by (simp add: inOrder_def)
  from plain_of_member [OF this] mi(2) mimg have pl: "list_all plainChar img" by simp
  from findIndex_mem [OF mi(2)] mimg obtain k where
    k: "findIndex (\<lambda>e. data_image e = Some img) (entries s) = Some k" by auto
  from findIndex_Some [OF k] have kl: "k < length (entries s)" by simp
  note q = querySelector_plain [OF pl, simplified]
  show ?thesis
    using True assms ms mi(3) img k kl
    by (auto simp: handleResize_def Let_def q closeMobileModal_def
        inOrder_def startCarousel_def plain_images mobileImage_def)
next
  case False
  show ?thesis
  proof (cases "wasMobile s \<and> \<not> isMobile (s\<lparr>innerWidth := w\<rparr>)")
    case True
    with False have "mobileModal s \<noteq> Some True" by simp
    with True assms(1) show ?thesis
      by (simp add: handleResize_def Let_def inOrder_def startCarousel_def)
  next
    case nr: False
    show ?thesis
    proof (cases "\<not> wasMobile s \<and> isMobile (s\<lparr>innerWidth := w\<rparr>)")
      case True
      with assms(1) have "mobileModal s \<noteq> Some True" by (auto simp: inOrder_def)
      with True assms(1) show ?thesis
        by (auto simp: handleResize_def Let_def inOrder_def mobileImage_def split: option.splits)
    next
      case False
      with nr have "wasMobile s = isMobile (s\<lparr>innerWidth := w\<rparr>)" by auto
      with assms(1) show ?thesis
        by (auto simp: handleResize_def Let_def inOrder_def)
    qed
  qed
qed

lemma mobileImage_fold [simp]:
  "mobileImage (fold (\<lambda>p. runAction (snd p)) xs s) = mobileImage s"
  by (simp add: mobileImage_def)

lemma mobileImage_fireDue [simp]: "mobileImage (fireDue s) = mobileImage s"
  by (simp add: mobileImage_def)

lemma selectEntry_inOrder:
  assumes "inOrder s" and "showcase s \<noteq> None" and "i < length (entries s)"
  shows "inOrder (selectEntry i True s)"
proof (cases "isMobile s")
  case True
  have "data_image (entries s ! i) \<in> set (map data_image (entries s))"
    using assms(3) by simp
  with True assms(1,2) show ?thesis
    by (auto simp: inOrder_def selectEntry_def Let_def openMobileModal_def mobileImage_def
        plain_images split: option.splits)
next
  case False
  with assms(1) show ?thesis
    by (auto simp: inOrder_def selectEntry_def Let_def pauseCarousel_def plain_images)
qed

lemma carouselTick_inOrder:
  assumes "inOrder s" and "carouselTick s = Returned s' \<or> carouselTick s = Threw e s'"
  shows "inOrder s'"
  using assms
  by (auto simp: inOrder_def carouselTick_def Let_def plain_images split: if_splits option.splits)

lemma step_inOrder:
  assumes "inOrder s" and "timersOk s"
  shows "inOrder (step s e)"
proof (cases e)
  case (Resize w)
  with handleResize_inOrder [OF assms, of w] show ?thesis by auto
next
  case (Click i)
  with assms show ?thesis by (simp add: selectEntry_inOrder)
next
  case (KeyDown i k)
  with assms show ?thesis by (simp add: selectEntry_inOrder)
next
  case (Tick t)
  with assms show ?thesis using carouselTick_inOrder [of s] by (auto split: outcome.splits)
next
  case Millisecond
  with assms show ?thesis by (auto simp: inOrder_def isMobile_def)
next
  case AnimationFrame
  with assms show ?thesis by (auto simp: inOrder_def progressFrame_def)
next
  case DismissModal
  with assms show ?thesis by (auto simp: inOrder_def closeMobileModal_def split: option.splits)
next
  case ToggleTheme
  with assms show ?thesis by (auto simp: inOrder_def toggleTheme_def Let_def)
next
  case (SystemTheme b)
  with assms show ?thesis by (auto simp: inOrder_def Let_def split: option.splits)
next
  case (Engine a)
  with assms show ?thesis by (auto simp: inOrder_def)
qed

lemma run_inOrder: "inOrder s \<Longrightarrow> timersOk s \<Longrightarrow> inOrder (run s evs)"
  unfolding run_def by (induction evs arbitrary: s) (simp_all add: step_inOrder step_timersOk)

lemma boot_inOrder:
  assumes "list_all (\<lambda>e. plainImage (data_image e)) (entries p)" and "mobileModal p \<noteq> Some True"
  shows "inOrder (boot p)"
  using assms
  by (auto simp: inOrder_def boot_def initResizeTracking_def setupEntrySelection_def Let_def
      startCarousel_def init_def scriptLoad_def split: option.splits)

text \<open>
  No event adds or removes the showcase or an entry.
\<close>

lemma startCarousel_frame [simp]:
  "innerWidth (startCarousel s) = innerWidth s"
  "localStorage (startCarousel s) = localStorage s"
  "matchMedia (startCarousel s) = matchMedia s"
  "engineAnswer (startCarousel s) = engineAnswer s"
  "clock (startCarousel s) = clock s"
  "data_theme (startCarousel s) = data_theme s"
  "data_theme_transitioning (startCarousel s) = data_theme_transitioning s"
  "entries (startCarousel s) = entries s"
  "showcase (startCarousel s) = showcase s"
  "mobileShowcase (startCarousel s) = mobileShowcase s"
  "mobileModal (startCarousel s) = mobileModal s"
  "body_overflow (startCarousel s) = body_overflow s"
  "wasMobile (startCarousel s) = wasMobile s"
  "carouselPaused (startCarousel s) = carouselPaused s"
  "timeouts (startCarousel s) = timeouts s"
  "isMobile (startCarousel s) = isMobile s"
  "mobileImage (startCarousel s) = mobileImage s"
  by (simp_all add: startCarousel_def Let_def isMobile_def mobileImage_def)

lemma handleResize_static:
  assumes "handleResize s = Returned s' \<or> handleResize s = Threw e s'"
  shows "(showcase s' = None) = (showcase s = None) \<and> length (entries s') = length (entries s)"
proof (cases "wasMobile s \<and> \<not> isMobile s")
  case True
  show ?thesis
  proof (cases "mobileModal s = Some True")
    case m: True
    show ?thesis
    proof (cases "mobileImage s")
      case None
      with True m assms show ?thesis
        by (auto simp: handleResize_def Let_def closeMobileModal_def mobileImage_def
            split: option.splits)
    next
      case (Some img)
      with True m assms show ?thesis
        by (cases "img = []")
          (auto simp: handleResize_def Let_def closeMobileModal_def mobileImage_def
            split: option.splits sum.splits if_splits)
    qed
  next
    case False
    with True assms show ?thesis
      by (auto simp: handleResize_def Let_def)
  qed
next
  case False
  with assms show ?thesis
    by (auto simp: handleResize_def Let_def split: option.splits if_splits)
qed

lemma step_static:
  "(showcase (step s e) = None) = (showcase s = None) \<and> length (entries (step s e)) = length (entries s)"
proof (cases e)
  case (Resize w)
  then show ?thesis
    using handleResize_static [of "s\<lparr>innerWidth := w\<rparr>"] by (auto split: outcome.splits)
next
  case (Click i)
  then show ?thesis
    by (auto simp: selectEntry_def Let_def pauseCarousel_def)
next
  case (KeyDown i k)
  then show ?thesis
    by (auto simp: selectEntry_def Let_def pauseCarousel_def)
next
  case (Tick t)
  then show ?thesis
    by (auto simp: carouselTick_def Let_def split: outcome.splits option.splits if_splits)
next
  case Millisecond
  then show ?thesis by simp
next
  case AnimationFrame
  then show ?thesis by (simp add: progressFrame_def)
next
  case DismissModal
  then show ?thesis by simp
next
  case ToggleTheme
  then show ?thesis by (simp add: toggleTheme_def Let_def)
next
  case (SystemTheme b)
  then show ?thesis by (simp add: Let_def split: option.splits)
next
  case (Engine a)
  then show ?thesis by simp
qed

lemma run_static:
  "(showcase (run s evs) = None) = (showcase s = None) \<and> length (entries (run s evs)) = length (entries s)"
  unfolding run_def by (induction evs arbitrary: s) (simp_all add: step_static)

lemma run_snoc: "run s (evs @ [e]) = step (run s evs) e"
  by (simp add: run_def)

section \<open>When the carousel runs\<close>

lemma startCarousel_guard: "isMobile s \<or> carouselPaused s \<or> entries s = [] \<Longrightarrow> startCarousel s = s"
  by (auto simp: startCarousel_def)

text \<open>
  Claim C1, as amended. In every state the page reaches, an interval timer is alive only
  on desktop, with the pause flag unset and at least one selectable entry; and a call of
  \<^verbatim>\<open>startCarousel\<close> on mobile, with the pause flag set or with no entry changes nothing, so
  it starts no timer.
\<close>

theorem carousel_runs_only_on_desktop_unpaused_nonempty:
  "(intervals (run (boot p) evs) \<noteq> [] \<longrightarrow>
      \<not> isMobile (run (boot p) evs) \<and> \<not> carouselPaused (run (boot p) evs) \<and>
      entries (run (boot p) evs) \<noteq> []) \<and>
   (isMobile s \<or> carouselPaused s \<or> entries s = [] \<longrightarrow> startCarousel s = s)"
proof -
  have "timersOk (run (boot p) evs)" by (simp add: run_timersOk boot_timersOk)
  then have "intervals (run (boot p) evs) \<noteq> [] \<longrightarrow>
      \<not> isMobile (run (boot p) evs) \<and> \<not> carouselPaused (run (boot p) evs) \<and>
      entries (run (boot p) evs) \<noteq> []"
    by (auto simp: timersOk_def split: option.splits)
  then show ?thesis using startCarousel_guard [of s] by blast
qed

theorem carousel_runs_only_on_desktop_unpaused_nonempty_witness:
  "intervals (run (boot examplePage) [Tick 0]) \<noteq> [] \<and>
   \<not> isMobile (run (boot examplePage) [Tick 0]) \<and>
   \<not> carouselPaused (run (boot examplePage) [Tick 0]) \<and>
   entries (run (boot examplePage) [Tick 0]) \<noteq> [] \<and>
   isMobile (examplePage\<lparr>innerWidth := 500\<rparr>) \<and>
   startCarousel (examplePage\<lparr>innerWidth := 500\<rparr>) = examplePage\<lparr>innerWidth := 500\<rparr>"
proof -
  have a: "intervals (run (boot examplePage) [Tick 0]) \<noteq> []" by code_simp
  have b: "isMobile (examplePage\<lparr>innerWidth := 500\<rparr>)" by code_simp
  from carousel_runs_only_on_desktop_unpaused_nonempty [of examplePage "[Tick 0]" "examplePage\<lparr>innerWidth := 500\<rparr>"] a b
  show ?thesis by blast
qed

text \<open>
  The claim as first stated asks for more than one entry. The guard of \<^verbatim>\<open>startCarousel\<close>
  is \<^verbatim>\<open>entries.length === 0\<close>: on a page with a single entry the carousel is started at
  load, and a call of \<^verbatim>\<open>startCarousel\<close> with that single entry creates a timer.
\<close>

theorem carousel_single_entry_counterexample:
  "length (entries (boot singlePage)) = 1 \<and> intervals (boot singlePage) = [0] \<and>
   length (entries (scriptLoad singlePage)) = 1 \<and> intervals (scriptLoad singlePage) = [] \<and>
   intervals (startCarousel (scriptLoad singlePage)) = [0]"
  by code_simp

text \<open>
  Claim C7. In every state the page reaches at most one interval timer is alive. A call of
  \<^verbatim>\<open>startCarousel\<close> that passes its guard leaves the timers that \<^verbatim>\<open>stopCarousel\<close> leaves,
  which no longer include the one \<open>carouselIntervalId\<close> held, plus one new timer. A tick on
  mobile or with the pause flag set returns what \<^verbatim>\<open>stopCarousel\<close> returns: the entries and
  the showcase are as before, and the timer \<open>carouselIntervalId\<close> held, the one that fired,
  is no longer alive.
\<close>

theorem single_carousel_timer:
  "length (intervals (run (boot p) evs)) \<le> 1 \<and>
   (\<not> (isMobile s \<or> entries s = [] \<or> showcase s = None \<or> carouselPaused s) \<longrightarrow>
      intervals (startCarousel s) = intervals (stopCarousel s) @ [nextTimerId s] \<and>
      carouselIntervalId (startCarousel s) = Some (nextTimerId s) \<and>
      (\<forall>t. carouselIntervalId s = Some t \<longrightarrow> t \<notin> set (intervals (stopCarousel s)))) \<and>
   ((isMobile s \<or> carouselPaused s) \<longrightarrow>
      carouselTick s = Returned (stopCarousel s) \<and>
      entries (stopCarousel s) = entries s \<and> showcase (stopCarousel s) = showcase s \<and>
      carouselIntervalId (stopCarousel s) = None \<and>
      (\<forall>t. carouselIntervalId s = Some t \<longrightarrow> t \<notin> set (intervals (stopCarousel s))))"
proof -
  have "timersOk (run (boot p) evs)" by (simp add: run_timersOk boot_timersOk)
  then have a: "length (intervals (run (boot p) evs)) \<le> 1"
    by (auto simp: timersOk_def split: option.splits)
  have b: "\<forall>t. carouselIntervalId s = Some t \<longrightarrow> t \<notin> set (intervals (stopCarousel s))"
    by (simp add: stopCarousel_def)
  have c: "\<not> (isMobile s \<or> entries s = [] \<or> showcase s = None \<or> carouselPaused s) \<longrightarrow>
      intervals (startCarousel s) = intervals (stopCarousel s) @ [nextTimerId s] \<and>
      carouselIntervalId (startCarousel s) = Some (nextTimerId s)"
    by (simp add: startCarousel_def Let_def)
  have d: "(isMobile s \<or> carouselPaused s) \<longrightarrow>
      carouselTick s = Returned (stopCarousel s) \<and>
      entries (stopCarousel s) = entries s \<and> showcase (stopCarousel s) = showcase s \<and>
      carouselIntervalId (stopCarousel s) = None"
    by (auto simp: carouselTick_def stopCarousel_def split: option.splits)
  from a b c d show ?thesis by blast
qed

theorem single_carousel_timer_witness:
  "length (intervals (run (boot examplePage) [Tick 0, Resize 500, Resize 1024])) \<le> 1 \<and>
   intervals (startCarousel (boot examplePage)) = [1] \<and>
   carouselTick ((boot examplePage)\<lparr>carouselPaused := True\<rparr>) =
     Returned (stopCarousel ((boot examplePage)\<lparr>carouselPaused := True\<rparr>)) \<and>
   intervals (stopCarousel ((boot examplePage)\<lparr>carouselPaused := True\<rparr>)) = []"
proof -
  let ?s = "boot examplePage"
  let ?q = "(boot examplePage)\<lparr>carouselPaused := True\<rparr>"
  have g: "\<not> (isMobile ?s \<or> entries ?s = [] \<or> showcase ?s = None \<or> carouselPaused ?s)"
    by code_simp
  have i: "intervals (stopCarousel ?s) @ [nextTimerId ?s] = [1]" by code_simp
  have q: "isMobile ?q \<or> carouselPaused ?q" by code_simp
  have j: "intervals (stopCarousel ?q) = []" by code_simp
  from single_carousel_timer [of examplePage "[Tick 0, Resize 500, Resize 1024]" ?s] g i
  have a: "length (intervals (run (boot examplePage) [Tick 0, Resize 500, Resize 1024])) \<le> 1"
    and b: "intervals (startCarousel ?s) = [1]" by simp_all
  from single_carousel_timer [of examplePage "[]" ?q] q
  have c: "carouselTick ?q = Returned (stopCarousel ?q)" by blast
  from a b c j show ?thesis by blast
qed

section \<open>User selection pauses the carousel\<close>

text \<open>
  A selection by the user on desktop pauses the carousel, and it stays paused as long as no
  call of the resize handler takes its branch \<^verbatim>\<open>wasMobile && !nowMobile\<close>.
\<close>

lemma selectEntry_user_halted:
  assumes "timersOk s" "\<not> isMobile s"
  shows "halted (selectEntry i True s)"
  using assms
  by (auto simp: halted_def timersOk_def selectEntry_def Let_def pauseCarousel_def stopCarousel_def
      split: option.splits)

lemma user_pause_persists:
  assumes "timersOk s" and "\<not> isMobile s" and "noReturnToDesktop (selectEntry i True s) evs"
  shows "intervals (run (selectEntry i True s) evs) = [] \<and> carouselPaused (run (selectEntry i True s) evs)"
  using run_halted [OF selectEntry_user_halted [OF assms(1,2)] assms(3)] by (simp add: halted_def)

text \<open>
  On a page whose image identifiers are plain and whose modal is closed at load, the resize
  handler returns, and a return to desktop unsets the pause flag and restarts the carousel.
\<close>

lemma return_restarts:
  assumes "inOrder s" "timersOk s" "returnsToDesktop s (Resize w)"
    and "entries s \<noteq> []" "showcase s \<noteq> None"
  shows "\<not> carouselPaused (step s (Resize w)) \<and> intervals (step s (Resize w)) \<noteq> []"
proof -
  from handleResize_inOrder [OF assms(1,2), of w] obtain s' where
    s': "handleResize (s\<lparr>innerWidth := w\<rparr>) = Returned s'" by blast
  from assms(3) have ret: "wasMobile s" "\<not> isMobile (s\<lparr>innerWidth := w\<rparr>)" by simp_all
  have "\<exists>sa. s' = (startCarousel (sa\<lparr>carouselPaused := False\<rparr>))\<lparr>wasMobile := False\<rparr> \<and>
          \<not> isMobile sa \<and> entries sa \<noteq> [] \<and> showcase sa \<noteq> None"
    using s' ret assms(4,5)
    by (auto simp: handleResize_def Let_def closeMobileModal_def
        split: if_splits option.splits sum.splits outcome.splits)
  then obtain sa where sa: "s' = (startCarousel (sa\<lparr>carouselPaused := False\<rparr>))\<lparr>wasMobile := False\<rparr>"
      "\<not> isMobile sa" "entries sa \<noteq> []" "showcase sa \<noteq> None" by blast
  from sa s' show ?thesis by (simp add: startCarousel_def Let_def)
qed

lemma user_selection_on_plain_page:
  assumes "list_all (\<lambda>e. plainImage (data_image e)) (entries p)" and "mobileModal p \<noteq> Some True"
    and "\<not> isMobile (run (boot p) pre)" and "showcase (run (boot p) pre) \<noteq> None"
    and "i < length (entries (run (boot p) pre))"
  shows "(\<forall>evs. noReturnToDesktop (step (run (boot p) pre) (Click i)) evs \<longrightarrow>
            intervals (run (step (run (boot p) pre) (Click i)) evs) = [] \<and>
            carouselPaused (run (step (run (boot p) pre) (Click i)) evs)) \<and>
         (\<forall>evs w. noReturnToDesktop (step (run (boot p) pre) (Click i)) evs \<and>
            returnsToDesktop (run (step (run (boot p) pre) (Click i)) evs) (Resize w) \<longrightarrow>
            intervals (run (step (run (boot p) pre) (Click i)) (evs @ [Resize w])) \<noteq> [] \<and>
            \<not> carouselPaused (run (step (run (boot p) pre) (Click i)) (evs @ [Resize w])))"
proof -
  let ?s = "run (boot p) pre"
  let ?s1 = "step ?s (Click i)"
  have ok: "timersOk ?s" by (simp add: run_timersOk boot_timersOk)
  have io: "inOrder ?s" by (simp add: run_inOrder boot_inOrder boot_timersOk assms(1,2))
  have ok1: "timersOk ?s1" by (rule step_timersOk [OF ok])
  have io1: "inOrder ?s1" by (rule step_inOrder [OF io ok])
  from assms have s1: "?s1 = selectEntry i True ?s" by simp
  have h1: "halted ?s1" unfolding s1 by (rule selectEntry_user_halted [OF ok assms(3)])
  have st1: "showcase ?s1 \<noteq> None" "entries ?s1 \<noteq> []"
    using step_static [of ?s "Click i"] assms(4,5) by auto
  have a: "\<forall>evs. noReturnToDesktop ?s1 evs \<longrightarrow>
            intervals (run ?s1 evs) = [] \<and> carouselPaused (run ?s1 evs)"
    using run_halted [OF h1] by (auto simp: halted_def)
  have b: "\<forall>evs w. noReturnToDesktop ?s1 evs \<and> returnsToDesktop (run ?s1 evs) (Resize w) \<longrightarrow>
            intervals (run ?s1 (evs @ [Resize w])) \<noteq> [] \<and>
            \<not> carouselPaused (run ?s1 (evs @ [Resize w]))"
  proof (intro allI impI)
    fix evs w
    assume h: "noReturnToDesktop ?s1 evs \<and> returnsToDesktop (run ?s1 evs) (Resize w)"
    let ?r = "run ?s1 evs"
    have okr: "timersOk ?r" by (rule run_timersOk [OF ok1])
    have ior: "inOrder ?r" by (rule run_inOrder [OF io1 ok1])
    from run_static [of ?s1 evs] st1 have str: "showcase ?r \<noteq> None" "entries ?r \<noteq> []" by auto
    from h have ret: "returnsToDesktop ?r (Resize w)" by simp
    from return_restarts [OF ior okr ret str(2,1)]
    show "intervals (run ?s1 (evs @ [Resize w])) \<noteq> [] \<and>
            \<not> carouselPaused (run ?s1 (evs @ [Resize w]))"
      by (simp only: run_snoc) blast
  qed
  from a b show ?thesis by blast
qed

text \<open>
  Claim C3 says that after a selection by the user on desktop the carousel never runs again,
  except that a transition of the viewport from mobile to desktop unsets the pause flag and
  restarts it. The code does not do that on the page whose first entry has the image
  \<^verbatim>\<open>x"y\<close>. The user selects an entry on desktop: the carousel is paused. The viewport
  goes to mobile, the user opens the modal on the first entry, and the viewport returns to
  desktop: the handler throws a SyntaxError at \<^verbatim>\<open>querySelector\<close>, before the lines that
  unset the flag, start the carousel and update \<open>wasMobile\<close>, so the carousel stays paused
  across this transition from mobile to desktop. The next resize event, from desktop to
  desktop, finds \<open>wasMobile\<close> still set, takes the same branch and restarts the carousel.
\<close>

theorem user_pause_lost_by_selector_exception:
  "\<not> isMobile (boot quotePage) \<and>
   carouselPaused (run (boot quotePage) [Click 2]) \<and>
   intervals (run (boot quotePage) [Click 2]) = [] \<and>
   isMobile (run (boot quotePage) [Click 2, Resize 500, Click 0]) \<and>
   mobileModal (run (boot quotePage) [Click 2, Resize 500, Click 0]) = Some True \<and>
   handleResize ((run (boot quotePage) [Click 2, Resize 500, Click 0])\<lparr>innerWidth := 1024\<rparr>) =
     Threw SyntaxError (run (boot quotePage) [Click 2, Resize 500, Click 0, Resize 1024]) \<and>
   \<not> isMobile (run (boot quotePage) [Click 2, Resize 500, Click 0, Resize 1024]) \<and>
   carouselPaused (run (boot quotePage) [Click 2, Resize 500, Click 0, Resize 1024]) \<and>
   intervals (run (boot quotePage) [Click 2, Resize 500, Click 0, Resize 1024]) = [] \<and>
   \<not> isMobile (run (boot quotePage) [Click 2, Resize 500, Click 0, Resize 1024, Resize 1100]) \<and>
   \<not> carouselPaused (run (boot quotePage) [Click 2, Resize 500, Click 0, Resize 1024, Resize 1100]) \<and>
   intervals (run (boot quotePage) [Click 2, Resize 500, Click 0, Resize 1024, Resize 1100]) = [1]"
  by code_simp

section \<open>Crossing the breakpoint\<close>

text \<open>
  On a page whose image identifiers are plain and whose modal is closed at load, a return
  to desktop with the modal open selects the first entry with the modal's image, shows that
  image at once and restarts the carousel; and a resize from desktop to mobile stops the
  carousel and gives the mobile showcase the image of the first selected entry.
\<close>

lemma return_with_modal:
  assumes "wasMobile s" "\<not> isMobile (s\<lparr>innerWidth := w\<rparr>)" "mobileModal s = Some True"
    and "mobileShowcase s = Some ms" "ms_data_selected ms = Some img" "img \<noteq> []"
    and "list_all plainChar img"
    and "findIndex (\<lambda>e. data_image e = Some img) (entries s) = Some k"
    and "showcase s = Some sc" "sc_wrapper sc \<noteq> None"
    and "carouselIntervalId s = None" "intervals s = []"
  shows "handleResize (s\<lparr>innerWidth := w\<rparr>) = Returned (step s (Resize w)) \<and>
         mobileModal (step s (Resize w)) = Some False \<and>
         selectedIndices (entries (step s (Resize w))) = [k] \<and>
         showcase (step s (Resize w)) = Some (sc\<lparr>sc_data_selected := Some img\<rparr>) \<and>
         timeouts (step s (Resize w)) = timeouts s \<and>
         \<not> carouselPaused (step s (Resize w)) \<and>
         carouselIntervalId (step s (Resize w)) = Some (nextTimerId s) \<and>
         intervals (step s (Resize w)) = [nextTimerId s]"
proof -
  from findIndex_Some [OF assms(8)] have k: "k < length (entries s)" by simp
  then have ne: "entries s \<noteq> []" by auto
  have sel: "selectedIndices (selectAt k (deselectAll (entries s))) = [k]"
    by (rule selectedIndices_selectAt [OF k])
  note q = querySelector_plain [OF assms(7), simplified]
  show ?thesis
    using assms k ne sel
    by (auto simp: handleResize_def Let_def q closeMobileModal_def updateImageVisibility_def
        startCarousel_def stopCarousel_def)
qed

lemma return_to_desktop_on_plain_page:
  assumes "list_all (\<lambda>e. plainImage (data_image e)) (entries p)" and "mobileModal p \<noteq> Some True"
    and "returnsToDesktop (run (boot p) evs) (Resize w)"
    and "mobileModal (run (boot p) evs) = Some True"
    and "showcase (run (boot p) evs) = Some sc" and "sc_wrapper sc \<noteq> None"
  shows "\<exists>img k.
           mobileImage (run (boot p) evs) = Some img \<and>
           findIndex (\<lambda>e. data_image e = Some img) (entries (run (boot p) evs)) = Some k \<and>
           handleResize ((run (boot p) evs)\<lparr>innerWidth := w\<rparr>) = Returned (step (run (boot p) evs) (Resize w)) \<and>
           mobileModal (step (run (boot p) evs) (Resize w)) = Some False \<and>
           selectedIndices (entries (step (run (boot p) evs) (Resize w))) = [k] \<and>
           showcase (step (run (boot p) evs) (Resize w)) = Some (sc\<lparr>sc_data_selected := Some img\<rparr>) \<and>
           timeouts (step (run (boot p) evs) (Resize w)) = timeouts (run (boot p) evs) \<and>
           \<not> carouselPaused (step (run (boot p) evs) (Resize w)) \<and>
           intervals (step (run (boot p) evs) (Resize w)) = [nextTimerId (run (boot p) evs)]"
proof -
  let ?s = "run (boot p) evs"
  have ok: "timersOk ?s" by (simp add: run_timersOk boot_timersOk)
  have io: "inOrder ?s" by (simp add: run_inOrder boot_inOrder boot_timersOk assms(1,2))
  from assms(3) have ret: "wasMobile ?s" "\<not> isMobile (?s\<lparr>innerWidth := w\<rparr>)" by simp_all
  from io assms(4) have mi: "truthy (mobileImage ?s)" "mobileImage ?s \<in> set (map data_image (entries ?s))"
    by (auto simp: inOrder_def)
  from mi(1) obtain ms where ms: "mobileShowcase ?s = Some ms"
    by (cases "mobileShowcase ?s") (auto simp: mobileImage_def)
  from mi(1) ms obtain img where img: "ms_data_selected ms = Some img" "img \<noteq> []"
    by (cases "ms_data_selected ms") (auto simp: mobileImage_def)
  from ms img(1) have mimg: "mobileImage ?s = Some img" by (simp add: mobileImage_def)
  from io have "list_all (\<lambda>e. plainImage (data_image e)) (entries ?s)" by (simp add: inOrder_def)
  from plain_of_member [OF this] mi(2) mimg have pl: "list_all plainChar img" by simp
  from findIndex_mem [OF mi(2)] mimg obtain k where
    k: "findIndex (\<lambda>e. data_image e = Some img) (entries ?s) = Some k" by auto
  from ok ret(1) have idle: "carouselIntervalId ?s = None" "intervals ?s = []"
    by (auto simp: timersOk_def split: option.splits)
  from return_with_modal [OF ret assms(4) ms img pl k assms(5,6) idle] mimg k
  show ?thesis by blast
qed

lemma leave_desktop:
  assumes "\<not> wasMobile s" "isMobile (s\<lparr>innerWidth := w\<rparr>)"
    and "findIndex selected (entries s) = Some k"
    and "data_image (entries s ! k) = Some img" "img \<noteq> []"
    and "mobileShowcase s = Some ms"
    and "timersOk s"
  shows "intervals (step s (Resize w)) = [] \<and>
         carouselIntervalId (step s (Resize w)) = None \<and>
         (case carouselProgress (step s (Resize w)) of
            None \<Rightarrow> carouselProgress s = None
          | Some pb \<Rightarrow> \<not> pb_running pb \<and> pb_paused pb) \<and>
         mobileShowcase (step s (Resize w)) = Some (ms\<lparr>ms_data_selected := Some img\<rparr>) \<and>
         mobileModal (step s (Resize w)) = mobileModal s"
  using assms
  by (auto simp: handleResize_def Let_def stopCarousel_def pauseProgressBar_def timersOk_def
      split: option.splits)

lemma desktop_to_mobile_on_plain_page:
  assumes "list_all (\<lambda>e. plainImage (data_image e)) (entries p)" and "mobileModal p \<noteq> Some True"
    and "\<not> isMobile (run (boot p) evs)" and "isMobile ((run (boot p) evs)\<lparr>innerWidth := w\<rparr>)"
    and "findIndex selected (entries (run (boot p) evs)) = Some k"
    and "data_image (entries (run (boot p) evs) ! k) = Some img" and "img \<noteq> []"
    and "mobileShowcase (run (boot p) evs) = Some ms"
  shows "intervals (step (run (boot p) evs) (Resize w)) = [] \<and>
         carouselIntervalId (step (run (boot p) evs) (Resize w)) = None \<and>
         (case carouselProgress (step (run (boot p) evs) (Resize w)) of
            None \<Rightarrow> carouselProgress (run (boot p) evs) = None
          | Some pb \<Rightarrow> \<not> pb_running pb \<and> pb_paused pb) \<and>
         mobileShowcase (step (run (boot p) evs) (Resize w)) = Some (ms\<lparr>ms_data_selected := Some img\<rparr>) \<and>
         mobileModal (step (run (boot p) evs) (Resize w)) = mobileModal (run (boot p) evs) \<and>
         mobileModal (step (run (boot p) evs) (Resize w)) \<noteq> Some True"
proof -
  let ?s = "run (boot p) evs"
  have ok: "timersOk ?s" by (simp add: run_timersOk boot_timersOk)
  have io: "inOrder ?s" by (simp add: run_inOrder boot_inOrder boot_timersOk assms(1,2))
  from io assms(3) have nw: "\<not> wasMobile ?s" and closed: "mobileModal ?s \<noteq> Some True"
    by (auto simp: inOrder_def)
  from leave_desktop [OF nw assms(4-8) ok] closed show ?thesis by simp
qed

text \<open>
  Claim C4 says that a resize from mobile to desktop with the modal open closes the modal,
  selects the entry of the modal's image, sets the showcase to that image at once, unsets the
  pause flag and starts the carousel. The code does not do that on the page whose first
  entry has the image \<^verbatim>\<open>x"y\<close>, with the modal open on that entry: the selector text is
  \<^verbatim>\<open>.entry.selectable[data-image="x"y"]\<close>, \<^verbatim>\<open>querySelector\<close> throws a SyntaxError, and the
  handler ends there. The modal is closed and no entry is selected any more; the showcase
  still displays the old image, the pause flag is still set, no timer is alive and
  \<open>wasMobile\<close> is still set.
\<close>

theorem return_to_desktop_stopped_by_selector_exception:
  "isMobile (run (boot quotePage) [Click 2, Resize 500, Click 0]) \<and>
   wasMobile (run (boot quotePage) [Click 2, Resize 500, Click 0]) \<and>
   mobileModal (run (boot quotePage) [Click 2, Resize 500, Click 0]) = Some True \<and>
   mobileShowcase (run (boot quotePage) [Click 2, Resize 500, Click 0]) =
     Some \<lparr>ms_data_selected = Some [CHR ''x'', DQUOTE, CHR ''y'']\<rparr> \<and>
   data_image (entries (run (boot quotePage) [Click 2, Resize 500, Click 0]) ! 0) =
     Some [CHR ''x'', DQUOTE, CHR ''y''] \<and>
   handleResize ((run (boot quotePage) [Click 2, Resize 500, Click 0])\<lparr>innerWidth := 1024\<rparr>) =
     Threw SyntaxError (step (run (boot quotePage) [Click 2, Resize 500, Click 0]) (Resize 1024)) \<and>
   \<not> isMobile (step (run (boot quotePage) [Click 2, Resize 500, Click 0]) (Resize 1024)) \<and>
   mobileModal (step (run (boot quotePage) [Click 2, Resize 500, Click 0]) (Resize 1024)) = Some False \<and>
   selectedIndices (entries (step (run (boot quotePage) [Click 2, Resize 500, Click 0]) (Resize 1024))) = [] \<and>
   shownImage (step (run (boot quotePage) [Click 2, Resize 500, Click 0]) (Resize 1024)) = Some ''b'' \<and>
   carouselPaused (step (run (boot quotePage) [Click 2, Resize 500, Click 0]) (Resize 1024)) \<and>
   intervals (step (run (boot quotePage) [Click 2, Resize 500, Click 0]) (Resize 1024)) = [] \<and>
   wasMobile (step (run (boot quotePage) [Click 2, Resize 500, Click 0]) (Resize 1024))"
  by code_simp

text \<open>
  Claim C5 says that every resize from desktop to mobile stops the carousel and the progress
  indicator and sets the image of the mobile showcase to that of the entry active on
  desktop. The code does not do that after the exception above: \<open>wasMobile\<close> is still set
  while the viewport is on desktop, so that when the user has selected the entry with the
  image b and the viewport goes to mobile, the handler takes neither branch and the mobile
  showcase keeps the image \<^verbatim>\<open>x"y\<close>.
\<close>

theorem desktop_to_mobile_missed_after_selector_exception:
  "\<not> isMobile (run (boot quotePage) [Resize 500, Click 0, Resize 1024, Click 1]) \<and>
   wasMobile (run (boot quotePage) [Resize 500, Click 0, Resize 1024, Click 1]) \<and>
   selectedIndices (entries (run (boot quotePage) [Resize 500, Click 0, Resize 1024, Click 1])) = [1] \<and>
   data_image (entries (run (boot quotePage) [Resize 500, Click 0, Resize 1024, Click 1]) ! 1) = Some ''b'' \<and>
   mobileModal (run (boot quotePage) [Resize 500, Click 0, Resize 1024, Click 1]) = Some False \<and>
   isMobile (step (run (boot quotePage) [Resize 500, Click 0, Resize 1024, Click 1]) (Resize 500)) \<and>
   mobileShowcase (step (run (boot quotePage) [Resize 500, Click 0, Resize 1024, Click 1]) (Resize 500)) =
     Some \<lparr>ms_data_selected = Some [CHR ''x'', DQUOTE, CHR ''y'']\<rparr> \<and>
   mobileShowcase (step (run (boot quotePage) [Resize 500, Click 0, Resize 1024, Click 1]) (Resize 500)) \<noteq>
     Some \<lparr>ms_data_selected = Some ''b''\<rparr> \<and>
   wasMobile (step (run (boot quotePage) [Resize 500, Click 0, Resize 1024, Click 1]) (Resize 500))"
  by code_simp

section \<open>The fade switch\<close>

lemma clock_elapse [simp]: "clock (elapse d s) = clock s + d"
  by (induction d) simp_all

lemma shownImage_runAction:
  "shownImage a = shownImage b \<Longrightarrow> (showcase a = None) = (showcase b = None) \<Longrightarrow>
   shownImage (runAction x a) = shownImage (runAction x b) \<and>
   (showcase (runAction x a) = None) = (showcase (runAction x b) = None)"
  by (cases x) (auto simp: shownImage_def split: option.splits)

lemma shownImage_fold:
  "shownImage a = shownImage b \<Longrightarrow> (showcase a = None) = (showcase b = None) \<Longrightarrow>
   shownImage (fold (\<lambda>p. runAction (snd p)) xs a) = shownImage (fold (\<lambda>p. runAction (snd p)) xs b) \<and>
   (showcase (fold (\<lambda>p. runAction (snd p)) xs a) = None) = (showcase (fold (\<lambda>p. runAction (snd p)) xs b) = None)"
proof (induction xs arbitrary: a b)
  case Nil
  then show ?case by simp
next
  case (Cons x xs)
  have st: "shownImage (runAction (snd x) a) = shownImage (runAction (snd x) b)"
    "(showcase (runAction (snd x) a) = None) = (showcase (runAction (snd x) b) = None)"
    using shownImage_runAction [OF Cons.prems, of "snd x"] by blast+
  from Cons.IH [OF st] show ?case by simp
qed

lemma ahead_step:
  assumes "ahead T img a b" "Suc (clock a) < T"
  shows "ahead T img (step a Millisecond) (step b Millisecond)"
proof -
  from assms have c: "clock a = clock b" and t: "timeouts a = timeouts b @ [(T, SwapImage img)]"
    and sh: "shownImage a = shownImage b" "(showcase a = None) = (showcase b = None)"
    by (auto simp: ahead_def)
  from assms(2) c have nd: "\<not> isDue (Suc (clock b)) (T, SwapImage img)" by (simp add: isDue_def)
  let ?a = "a\<lparr>clock := Suc (clock a), timeouts := filter (\<lambda>p. \<not> isDue (Suc (clock a)) p) (timeouts a)\<rparr>"
  let ?b = "b\<lparr>clock := Suc (clock b), timeouts := filter (\<lambda>p. \<not> isDue (Suc (clock b)) p) (timeouts b)\<rparr>"
  have "shownImage ?a = shownImage ?b" "(showcase ?a = None) = (showcase ?b = None)"
    using sh by (simp_all add: shownImage_def)
  from shownImage_fold [OF this, of "filter (isDue (Suc (clock b))) (timeouts b)"] c t nd
  show ?thesis
    by (simp add: ahead_def fireDue_def)
qed

lemma ahead_elapse:
  assumes "ahead T img a b" "clock a + d < T"
  shows "ahead T img (elapse d a) (elapse d b)"
  using assms(2)
proof (induction d)
  case 0
  from assms(1) show ?case by simp
next
  case (Suc d)
  then have ih: "ahead T img (elapse d a) (elapse d b)" by simp
  from Suc.prems have "Suc (clock (elapse d a)) < T" by simp
  from ahead_step [OF ih this] show ?case by simp
qed

lemma swap_shown:
  "showcase r \<noteq> None \<Longrightarrow>
   shownImage (runAction (SwapImage img) r) = Some img \<and> \<not> fading (runAction (SwapImage img) r)"
  by (auto simp: shownImage_def fading_def)

lemma ahead_fire:
  assumes "ahead T img a b" "Suc (clock a) = T" "showcase a \<noteq> None"
  shows "shownImage (step a Millisecond) = Some img \<and> \<not> fading (step a Millisecond)"
proof -
  from assms have t: "timeouts a = timeouts b @ [(T, SwapImage img)]" by (simp add: ahead_def)
  from assms(2) have d: "isDue (Suc (clock a)) (T, SwapImage img)" by (simp add: isDue_def)
  let ?a = "a\<lparr>clock := Suc (clock a), timeouts := filter (\<lambda>p. \<not> isDue (Suc (clock a)) p) (timeouts a)\<rparr>"
  let ?r = "fold (\<lambda>p. runAction (snd p)) (filter (isDue (Suc (clock a))) (timeouts b)) ?a"
  have r: "showcase ?r \<noteq> None" using assms(3) by simp
  have "step a Millisecond = runAction (SwapImage img) ?r"
    using t d by (simp add: fireDue_def)
  with swap_shown [OF r, of img] show ?thesis by simp
qed

lemma fold_no_swap:
  "\<forall>p\<in>set xs. \<not> isSwap (snd p) \<Longrightarrow> showcase (fold (\<lambda>p. runAction (snd p)) xs s) = showcase s"
proof (induction xs arbitrary: s)
  case Nil
  then show ?case by simp
next
  case (Cons x xs)
  from Cons.prems have "\<not> isSwap (snd x)" by simp
  then have "showcase (runAction (snd x) s) = showcase s" by (cases "snd x") simp_all
  with Cons show ?case by simp
qed

lemma quiet_step:
  assumes "swapsFrom T s" "Suc (clock s) < T"
  shows "showcase (step s Millisecond) = showcase s \<and> swapsFrom T (step s Millisecond)"
proof -
  have "\<forall>p\<in>set (filter (isDue (Suc (clock s))) (timeouts s)). \<not> isSwap (snd p)"
    using assms by (auto simp: swapsFrom_def isDue_def)
  from fold_no_swap [OF this] have "showcase (step s Millisecond) = showcase s"
    by (simp add: fireDue_def)
  moreover have "swapsFrom T (step s Millisecond)"
    using assms(1) by (simp add: swapsFrom_def fireDue_def)
  ultimately show ?thesis by simp
qed

lemma quiet_elapse:
  assumes "swapsFrom T s" "clock s + d < T"
  shows "showcase (elapse d s) = showcase s \<and> swapsFrom T (elapse d s)"
  using assms(2)
proof (induction d)
  case 0
  from assms(1) show ?case by simp
next
  case (Suc d)
  then have ih: "showcase (elapse d s) = showcase s" "swapsFrom T (elapse d s)" by simp_all
  from Suc.prems have "Suc (clock (elapse d s)) < T" by simp
  from quiet_step [OF ih(2) this] ih(1) show ?case by simp
qed

lemma showcase_elapse_present [simp]: "(showcase (elapse d s) = None) = (showcase s = None)"
  by (induction d) simp_all

lemma elapse_Suc_eq: "n = Suc m \<Longrightarrow> elapse n s = step (elapse m s) Millisecond"
  by (simp del: step.simps)

text \<open>
  Claim C6, as amended. Let \<^verbatim>\<open>updateImageVisibility\<close> be called with a non-empty image and
  the fade, on a showcase that has its image wrapper. The call marks the wrapper as fading
  and leaves the displayed image as it is. For every delay below 250 ms the displayed image
  is what it would be without the call, and when no other fade is under way at the call it
  is the old image, the wrapper still fading. After exactly 250 ms the displayed image is the
  new one and the wrapper is no longer fading. The delay of the swap is half of the total
  duration of 500 ms.
\<close>

theorem fade_swap_at_midpoint:
  assumes "showcase s = Some sc" and "sc_wrapper sc \<noteq> None" and "img \<noteq> []"
  shows "fading (updateImageVisibility (Some img) False s) \<and>
         shownImage (updateImageVisibility (Some img) False s) = shownImage s \<and>
         (\<forall>d<FADE_SWAP_DELAY.
            shownImage (elapse d (updateImageVisibility (Some img) False s)) = shownImage (elapse d s)) \<and>
         (\<not> swapPending s \<longrightarrow>
            (\<forall>d<FADE_SWAP_DELAY.
               shownImage (elapse d (updateImageVisibility (Some img) False s)) = shownImage s \<and>
               fading (elapse d (updateImageVisibility (Some img) False s)))) \<and>
         shownImage (elapse FADE_SWAP_DELAY (updateImageVisibility (Some img) False s)) = Some img \<and>
         \<not> fading (elapse FADE_SWAP_DELAY (updateImageVisibility (Some img) False s)) \<and>
         FADE_SWAP_DELAY = 250 \<and> 2 * FADE_SWAP_DELAY = FADE_SWITCH_TOTAL"
proof -
  let ?T = "clock s + FADE_SWAP_DELAY"
  let ?s1 = "updateImageVisibility (Some img) False s"
  from assms obtain f where f: "sc_wrapper sc = Some f" by auto
  have s1: "?s1 = s\<lparr>showcase := Some (sc\<lparr>sc_wrapper := Some True\<rparr>),
                     timeouts := timeouts s @ [(?T, SwapImage img)]\<rparr>"
    using assms f by (simp add: updateImageVisibility_def)
  have a: "fading ?s1" "shownImage ?s1 = shownImage s"
    using assms by (simp_all add: s1 fading_def shownImage_def)
  have ah: "ahead ?T img ?s1 s"
    using assms by (simp add: s1 ahead_def shownImage_def)
  have b: "\<forall>d<FADE_SWAP_DELAY. shownImage (elapse d ?s1) = shownImage (elapse d s)"
  proof (intro allI impI)
    fix d assume "d < FADE_SWAP_DELAY"
    then have "clock ?s1 + d < ?T" by simp
    from ahead_elapse [OF ah this] show "shownImage (elapse d ?s1) = shownImage (elapse d s)"
      by (simp add: ahead_def)
  qed
  have c: "\<not> swapPending s \<longrightarrow>
            (\<forall>d<FADE_SWAP_DELAY. shownImage (elapse d ?s1) = shownImage s \<and> fading (elapse d ?s1))"
  proof (intro allI impI)
    fix d assume np: "\<not> swapPending s" and d: "d < FADE_SWAP_DELAY"
    from np have "swapsFrom ?T ?s1"
      by (auto simp: s1 swapsFrom_def swapPending_def list_ex_iff)
    moreover from d have "clock ?s1 + d < ?T" by simp
    ultimately have "showcase (elapse d ?s1) = showcase ?s1" using quiet_elapse by blast
    with a show "shownImage (elapse d ?s1) = shownImage s \<and> fading (elapse d ?s1)"
      by (simp add: shownImage_def fading_def)
  qed
  have e: "shownImage (elapse FADE_SWAP_DELAY ?s1) = Some img \<and> \<not> fading (elapse FADE_SWAP_DELAY ?s1)"
  proof -
    have el: "elapse FADE_SWAP_DELAY ?s1 = step (elapse 249 ?s1) Millisecond"
      by (rule elapse_Suc_eq) (simp add: FADE_SWAP_DELAY_def)
    have "clock ?s1 + 249 < ?T" by (simp add: FADE_SWAP_DELAY_def)
    from ahead_elapse [OF ah this] have ah2: "ahead ?T img (elapse 249 ?s1) (elapse 249 s)" .
    have ck: "Suc (clock (elapse 249 ?s1)) = ?T" by (simp add: FADE_SWAP_DELAY_def)
    have pr: "showcase (elapse 249 ?s1) \<noteq> None" using assms by simp
    from ahead_fire [OF ah2 ck pr] el show ?thesis by simp
  qed
  have g: "FADE_SWAP_DELAY = 250 \<and> 2 * FADE_SWAP_DELAY = FADE_SWITCH_TOTAL"
    by (simp add: FADE_SWAP_DELAY_def FADE_SWITCH_TOTAL_def)
  from a b c e g show ?thesis by blast
qed

theorem fade_swap_at_midpoint_witness:
  "shownImage (boot examplePage) = Some ''b'' \<and>
   shownImage (updateImageVisibility (Some ''c'') False (boot examplePage)) = Some ''b'' \<and>
   shownImage (elapse 249 (updateImageVisibility (Some ''c'') False (boot examplePage))) = Some ''b'' \<and>
   fading (elapse 249 (updateImageVisibility (Some ''c'') False (boot examplePage))) \<and>
   shownImage (elapse 250 (updateImageVisibility (Some ''c'') False (boot examplePage))) = Some ''c'' \<and>
   \<not> fading (elapse 250 (updateImageVisibility (Some ''c'') False (boot examplePage)))"
proof -
  let ?s = "boot examplePage"
  have h1: "showcase ?s = Some \<lparr>sc_data_selected = Some ''b'', sc_wrapper = Some False\<rparr>" by code_simp
  have h2: "sc_wrapper \<lparr>sc_data_selected = Some ''b'', sc_wrapper = Some False\<rparr> \<noteq> None" by simp
  have h3: "''c'' \<noteq> []" by simp
  have h4: "\<not> swapPending ?s" by code_simp
  have v: "shownImage ?s = Some ''b''" by code_simp
  have d: "(249::nat) < FADE_SWAP_DELAY" "FADE_SWAP_DELAY = 250" by (simp_all add: FADE_SWAP_DELAY_def)
  let ?s1 = "updateImageVisibility (Some ''c'') False ?s"
  from fade_swap_at_midpoint [OF h1 h2 h3] h4
  have a: "shownImage ?s1 = shownImage ?s"
    and q: "\<forall>d<FADE_SWAP_DELAY. shownImage (elapse d ?s1) = shownImage ?s \<and> fading (elapse d ?s1)"
    and e: "shownImage (elapse FADE_SWAP_DELAY ?s1) = Some ''c''"
           "\<not> fading (elapse FADE_SWAP_DELAY ?s1)"
    by blast+
  from q d(1) have "shownImage (elapse 249 ?s1) = shownImage ?s \<and> fading (elapse 249 ?s1)" by blast
  with a e v show ?thesis by (simp add: d(2))
qed

text \<open>
  The claim as first stated gives every selection change a fade-out of 250 ms with the swap
  at its end. No pending swap is ever cancelled, so a change made while an earlier fade is
  under way is cut short by it: the carousel ticks from b to c, the user selects a 100 ms
  later, and 150 ms after that selection the swap of the tick runs: the wrapper is no
  longer fading and the showcase displays c, neither the old image nor the selected one,
  which it displays only from the 250 ms mark.
\<close>

theorem fade_cut_short_counterexample:
  "selectedIndices (entries (run (boot examplePage) (Tick 0 # replicate 100 Millisecond))) = [2] \<and>
   selectedIndices (entries (run (boot examplePage) (Tick 0 # replicate 100 Millisecond @ [Click 0]))) = [0] \<and>
   fading (run (boot examplePage) (Tick 0 # replicate 100 Millisecond @ [Click 0])) \<and>
   shownImage (run (boot examplePage) (Tick 0 # replicate 100 Millisecond @ [Click 0])) = Some ''b'' \<and>
   \<not> fading (elapse 150 (run (boot examplePage) (Tick 0 # replicate 100 Millisecond @ [Click 0]))) \<and>
   shownImage (elapse 150 (run (boot examplePage) (Tick 0 # replicate 100 Millisecond @ [Click 0]))) = Some ''c'' \<and>
   shownImage (elapse 250 (run (boot examplePage) (Tick 0 # replicate 100 Millisecond @ [Click 0]))) = Some ''a''"
  by code_simp

end
